theory Spec2Isabelle
  imports Complex_Main
begin

section \<open>Data model of the maze-chase simulation\<close>

text \<open>
  The embedding follows \<^verbatim>\<open>pacman4k_claudv0.py\<close>. Positions and speeds are Python
  floats in the source; they are modelled as exact rationals (the player's coordinates are
  multiples of one half and are exact in both). Mode strings, phase strings and adversary names
  become datatypes. Rendering, audio and the cosmetic mouth animation are left out.
  Every exception the source can raise is a value \<open>Inl e\<close> of the result type.
\<close>

type_synonym tile = "int \<times> int"
type_synonym direction = "int \<times> int"

datatype error = TypeError | IndexError

datatype gname = Blinky | Pinky | Inky | Clyde

text \<open>The source only ever assigns the modes scatter, pen, leaving, dead and entering;
  \<open>Chase\<close> stands for the \<^verbatim>\<open>else:  # chase mode\<close> branch of \<^verbatim>\<open>update_target\<close>.\<close>

datatype gmode = Scatter | Chase | Pen | Leaving | Dead | Entering

datatype phase = READY | PLAYING | DYING | GAME_OVER

definition TILE_SIZE :: int where "TILE_SIZE = 20"
definition MAZE_COLS :: int where "MAZE_COLS = 28"
definition MAZE_ROWS :: int where "MAZE_ROWS = 31"
definition SCREEN_WIDTH :: int where "SCREEN_WIDTH = TILE_SIZE * MAZE_COLS"
definition FPS :: int where "FPS = 60"
definition START_LIVES :: int where "START_LIVES = 3"
definition DOT_SCORE :: int where "DOT_SCORE = 10"
definition POWER_DOT_SCORE :: int where "POWER_DOT_SCORE = 50"
definition GHOST_EAT_SCORES :: "int list" where "GHOST_EAT_SCORES = [200, 400, 800, 1600]"
definition POWER_PELLET_TIME :: int where "POWER_PELLET_TIME = 6 * FPS"
definition READY_TIME :: int where "READY_TIME = 2 * FPS"

definition maze_layout :: "string list" where
  "maze_layout =
   [''############################'',
    ''#............##............#'',
    ''#.####.#####.##.#####.####.#'',
    ''#o####.#####.##.#####.####o#'',
    ''#.####.#####.##.#####.####.#'',
    ''#..........................#'',
    ''#.####.##.########.##.####.#'',
    ''#.####.##.########.##.####.#'',
    ''#......##....##....##......#'',
    ''######.##### ## #####.######'',
    ''######.##### ## #####.######'',
    ''######.##          ##.######'',
    ''######.## ###--### ##.######'',
    ''######.## #      # ##.######'',
    ''       ## #      # ##       '',
    ''######.## #      # ##.######'',
    ''######.## ######## ##.######'',
    ''######.##          ##.######'',
    ''######.## ######## ##.######'',
    ''######.## ######## ##.######'',
    ''#............##............#'',
    ''#.####.#####.##.#####.####.#'',
    ''#.####.#####.##.#####.####.#'',
    ''#o..##................##..o#'',
    ''###.##.##.########.##.##.###'',
    ''###.##.##.########.##.##.###'',
    ''#......##....##....##......#'',
    ''#.##########.##.##########.#'',
    ''#.##########.##.##########.#'',
    ''#..........................#'',
    ''############################'']"

subsection \<open>Python list indexing and exceptions\<close>

definition ebind :: "error + 'a \<Rightarrow> ('a \<Rightarrow> error + 'b) \<Rightarrow> error + 'b" where
  "ebind m f = (case m of Inl e \<Rightarrow> Inl e | Inr v \<Rightarrow> f v)"

text \<open>\<^verbatim>\<open>xs[i]\<close>: a negative index counts from the end, anything else out of range raises.\<close>

definition py_index :: "'a list \<Rightarrow> int \<Rightarrow> error + 'a" where
  "py_index xs i =
     (let n = int (length xs); j = (if i < 0 then i + n else i)
      in if 0 \<le> j \<and> j < n then Inr (xs ! nat j) else Inl IndexError)"

text \<open>\<^verbatim>\<open>xs[i] = v\<close>.\<close>

definition py_store :: "'a list \<Rightarrow> int \<Rightarrow> 'a \<Rightarrow> error + 'a list" where
  "py_store xs i v =
     (let n = int (length xs); j = (if i < 0 then i + n else i)
      in if 0 \<le> j \<and> j < n then Inr (xs[nat j := v]) else Inl IndexError)"

text \<open>\<^verbatim>\<open>maze[row][col]\<close> and \<^verbatim>\<open>maze[row][col] = v\<close>; the rows are separate list objects.\<close>

definition maze_at :: "char list list \<Rightarrow> int \<Rightarrow> int \<Rightarrow> error + char" where
  "maze_at m row col = ebind (py_index m row) (\<lambda>r. py_index r col)"

definition maze_set :: "char list list \<Rightarrow> int \<Rightarrow> int \<Rightarrow> char \<Rightarrow> error + char list list" where
  "maze_set m row col v =
     ebind (py_index m row) (\<lambda>r. ebind (py_store r col v) (\<lambda>r'. py_store m row r'))"

subsection \<open>Records of the three classes\<close>

record Pacman =
  pac_start_tile :: tile
  pac_x :: rat
  pac_y :: rat
  pac_dir :: direction
  pac_next_dir :: direction
  pac_speed :: rat

record Ghost =
  gh_name :: gname
  gh_scatter_target :: tile
  gh_start_tile :: tile
  gh_x :: rat
  gh_y :: rat
  gh_dir :: direction
  gh_speed :: rat
  gh_mode :: gmode
  gh_frightened :: bool
  gh_frightened_timer :: int
  gh_target :: tile
  gh_pen_timer :: int

text \<open>\<^verbatim>\<open>self.original_maze\<close> and \<^verbatim>\<open>self.total_pellets\<close> are assigned once in
  \<^verbatim>\<open>__init__\<close> and never written again; they are the constants \<open>original_maze\<close> and
  \<open>total_pellets\<close> below. The list \<^verbatim>\<open>self.ghosts\<close> aliases the four adversary objects
  in the order blinky, pinky, inky, clyde.\<close>

record Game =
  state :: phase
  state_timer :: int
  score :: int
  high_score :: int
  lives :: int
  level :: int
  pellets_eaten :: int
  ghost_eat_count :: int
  power_mode :: bool
  power_timer :: int
  power_pellet_blink :: int
  waka_timer :: int
  maze :: "char list list"
  pacman :: Pacman
  blinky :: Ghost
  pinky :: Ghost
  inky :: Ghost
  clyde :: Ghost
  ghost_release_timer :: int
  ghosts_released :: "gname set"

definition original_maze :: "char list list" where
  "original_maze = maze_layout"

definition count_pellets :: int where
  "count_pellets =
     fold (\<lambda>row count. count + (int (count_list row CHR ''.'') + int (count_list row CHR ''o'')))
       maze_layout 0"

definition total_pellets :: int where
  "total_pellets = count_pellets"

subsection \<open>Pacman\<close>

definition Pacman_reset :: "Pacman \<Rightarrow> Pacman" where
  "Pacman_reset p =
     p\<lparr>pac_x := of_int (fst (pac_start_tile p) * TILE_SIZE + TILE_SIZE div 2),
       pac_y := of_int (snd (pac_start_tile p) * TILE_SIZE + TILE_SIZE div 2),
       pac_dir := (0, 0), pac_next_dir := (0, 0), pac_speed := 3 / 2\<rparr>"

definition Pacman_init :: "tile \<Rightarrow> Pacman" where
  "Pacman_init start =
     Pacman_reset \<lparr>pac_start_tile = start, pac_x = 0, pac_y = 0, pac_dir = (0, 0),
                   pac_next_dir = (0, 0), pac_speed = 0\<rparr>"

definition set_direction :: "int \<Rightarrow> int \<Rightarrow> Pacman \<Rightarrow> Pacman" where
  "set_direction dx dy p = p\<lparr>pac_next_dir := (dx, dy)\<rparr>"

text \<open>\<^verbatim>\<open>int(v // TILE_SIZE)\<close>\<close>

definition tile_of :: "rat \<Rightarrow> int" where
  "tile_of v = \<lfloor>v / of_int TILE_SIZE\<rfloor>"

definition Pacman_get_tile :: "Pacman \<Rightarrow> tile" where
  "Pacman_get_tile p = (tile_of (pac_x p), tile_of (pac_y p))"

text \<open>The test \<^verbatim>\<open>abs(x - (col*TILE_SIZE + TILE_SIZE//2)) < 2 and abs(y - ...) < 2\<close>.\<close>

definition centered :: "rat \<Rightarrow> rat \<Rightarrow> int \<Rightarrow> int \<Rightarrow> bool" where
  "centered x y col row \<longleftrightarrow>
     \<bar>x - of_int (col * TILE_SIZE + TILE_SIZE div 2)\<bar> < 2 \<and>
     \<bar>y - of_int (row * TILE_SIZE + TILE_SIZE div 2)\<bar> < 2"

definition in_grid :: "int \<Rightarrow> int \<Rightarrow> bool" where
  "in_grid col row \<longleftrightarrow> 0 \<le> col \<and> col < MAZE_COLS \<and> 0 \<le> row \<and> row < MAZE_ROWS"

definition blocking :: "char \<Rightarrow> bool" where
  "blocking c \<longleftrightarrow> c = CHR ''#'' \<or> c = CHR ''-''"

text \<open>First half of \<^verbatim>\<open>Pacman.update\<close>: try to turn if centered on the tile.\<close>

definition Pacman_try_turn :: "char list list \<Rightarrow> Pacman \<Rightarrow> error + Pacman" where
  "Pacman_try_turn mz p =
     (let (col, row) = Pacman_get_tile p in
      if centered (pac_x p) (pac_y p) col row \<and> pac_next_dir p \<noteq> (0, 0) then
        (let next_col = col + fst (pac_next_dir p);
             next_row = row + snd (pac_next_dir p)
         in if in_grid next_col next_row then
              ebind (maze_at mz next_row next_col) (\<lambda>c.
                if \<not> blocking c
                then Inr (p\<lparr>pac_dir := pac_next_dir p, pac_next_dir := (0, 0)\<rparr>)
                else Inr p)
            else Inr p)
      else Inr p)"

text \<open>Second half: move in the current direction, wall check, tunnel wrapping.\<close>

definition Pacman_move :: "char list list \<Rightarrow> Pacman \<Rightarrow> error + Pacman" where
  "Pacman_move mz p =
     (if pac_dir p \<noteq> (0, 0) then
        (let next_x = pac_x p + of_int (fst (pac_dir p)) * pac_speed p;
             next_y = pac_y p + of_int (snd (pac_dir p)) * pac_speed p;
             next_col = tile_of next_x;
             next_row = tile_of next_y
         in ebind
              (if in_grid next_col next_row then
                 ebind (maze_at mz next_row next_col) (\<lambda>c.
                   if \<not> blocking c then Inr (p\<lparr>pac_x := next_x, pac_y := next_y\<rparr>)
                   else Inr (p\<lparr>pac_dir := (0, 0)\<rparr>))
               else Inr p)
              (\<lambda>p'. if next_row = 14 then
                       (if next_x < 0
                        then Inr (p'\<lparr>pac_x := of_int (SCREEN_WIDTH - TILE_SIZE div 2)\<rparr>)
                        else if next_x \<ge> of_int SCREEN_WIDTH
                        then Inr (p'\<lparr>pac_x := of_int (TILE_SIZE div 2)\<rparr>)
                        else Inr p')
                     else Inr p'))
      else Inr p)"

definition Pacman_update :: "char list list \<Rightarrow> Pacman \<Rightarrow> error + Pacman" where
  "Pacman_update mz p = ebind (Pacman_try_turn mz p) (Pacman_move mz)"

subsection \<open>Ghost\<close>

definition Ghost_reset :: "Ghost \<Rightarrow> Ghost" where
  "Ghost_reset g =
     g\<lparr>gh_x := of_int (fst (gh_start_tile g) * TILE_SIZE + TILE_SIZE div 2),
       gh_y := of_int (snd (gh_start_tile g) * TILE_SIZE + TILE_SIZE div 2),
       gh_dir := (if gh_name g = Blinky then (0, -1) else (0, 1)),
       gh_speed := 6 / 5,
       gh_mode := (if gh_name g = Blinky then Scatter else Pen),
       gh_frightened := False,
       gh_frightened_timer := 0,
       gh_target := gh_scatter_target g,
       gh_pen_timer := 0\<rparr>"

definition Ghost_init :: "gname \<Rightarrow> tile \<Rightarrow> tile \<Rightarrow> Ghost" where
  "Ghost_init nm start scatter =
     Ghost_reset \<lparr>gh_name = nm, gh_scatter_target = scatter, gh_start_tile = start,
                  gh_x = 0, gh_y = 0, gh_dir = (0, 0), gh_speed = 0, gh_mode = Pen,
                  gh_frightened = False, gh_frightened_timer = 0, gh_target = scatter,
                  gh_pen_timer = 0\<rparr>"

definition release :: "Ghost \<Rightarrow> Ghost" where
  "release g = (if gh_mode g = Pen then g\<lparr>gh_mode := Leaving, gh_dir := (0, -1)\<rparr> else g)"

definition frighten :: "Ghost \<Rightarrow> Ghost" where
  "frighten g =
     (if gh_mode g \<notin> {Dead, Entering, Pen, Leaving}
      then g\<lparr>gh_frightened := True, gh_frightened_timer := POWER_PELLET_TIME,
             gh_dir := (- fst (gh_dir g), - snd (gh_dir g)), gh_speed := 4 / 5\<rparr>
      else g)"

definition unfrighten :: "Ghost \<Rightarrow> Ghost" where
  "unfrighten g = g\<lparr>gh_frightened := False, gh_speed := 6 / 5\<rparr>"

definition die :: "Ghost \<Rightarrow> Ghost" where
  "die g = g\<lparr>gh_mode := Dead, gh_frightened := False, gh_speed := 2, gh_target := (13, 11)\<rparr>"

definition Ghost_get_tile :: "Ghost \<Rightarrow> tile" where
  "Ghost_get_tile g = (tile_of (gh_x g), tile_of (gh_y g))"

text \<open>\<^verbatim>\<open>move_in_direction\<close> adds the step unconditionally, then wraps on the tunnel row.\<close>

definition move_in_direction :: "Ghost \<Rightarrow> Ghost" where
  "move_in_direction g =
     (let g1 = g\<lparr>gh_x := gh_x g + of_int (fst (gh_dir g)) * gh_speed g,
                 gh_y := gh_y g + of_int (snd (gh_dir g)) * gh_speed g\<rparr>;
          row = tile_of (gh_y g1)
      in if row = 14 then
           (if gh_x g1 < 0 then g1\<lparr>gh_x := of_int (SCREEN_WIDTH - TILE_SIZE div 2)\<rparr>
            else if gh_x g1 \<ge> of_int SCREEN_WIDTH then g1\<lparr>gh_x := of_int (TILE_SIZE div 2)\<rparr>
            else g1)
         else g1)"

text \<open>The line \<^verbatim>\<open>distance = math.hypot(pac_col - math.cos, pac_row - pow)\<close> subtracts a
  built-in function object from an integer, which raises \<^verbatim>\<open>TypeError\<close> before
  \<^verbatim>\<open>hypot\<close> is called.\<close>

definition int_minus_builtin :: "int \<Rightarrow> error + rat" where
  "int_minus_builtin i = Inl TypeError"

definition update_target :: "Pacman \<Rightarrow> Ghost \<Rightarrow> Ghost \<Rightarrow> error + Ghost" where
  "update_target pac bl g =
     (let (pac_col, pac_row) = Pacman_get_tile pac;
          pac_dir = pac_dir pac
      in if gh_mode g = Scatter then Inr (g\<lparr>gh_target := gh_scatter_target g\<rparr>)
         else (case gh_name g of
             Blinky \<Rightarrow> Inr (g\<lparr>gh_target := (pac_col, pac_row)\<rparr>)
           | Pinky \<Rightarrow>
               (let target_col = pac_col + fst pac_dir * 4;
                    target_row = pac_row + snd pac_dir * 4
                in Inr (g\<lparr>gh_target := (target_col, target_row)\<rparr>))
           | Inky \<Rightarrow>
               (let (blinky_col, blinky_row) = Ghost_get_tile bl;
                    ahead_col = pac_col + fst pac_dir * 2;
                    ahead_row = pac_row + snd pac_dir * 2;
                    target_col = ahead_col + (ahead_col - blinky_col);
                    target_row = ahead_row + (ahead_row - blinky_row)
                in Inr (g\<lparr>gh_target := (target_col, target_row)\<rparr>))
           | Clyde \<Rightarrow>
               ebind (int_minus_builtin pac_col) (\<lambda>distance.
                 if distance < 8 then Inr (g\<lparr>gh_target := gh_scatter_target g\<rparr>)
                 else Inr (g\<lparr>gh_target := (pac_col, pac_row)\<rparr>))))"

text \<open>\<^verbatim>\<open>math.hypot(dx, dy)\<close> on integers is compared through its square
  \<open>dx\<^sup>2 + dy\<^sup>2\<close> (the square root is strictly monotone); \<open>None\<close> is
  \<^verbatim>\<open>float('inf')\<close>.\<close>

definition hypot2 :: "int \<Rightarrow> int \<Rightarrow> int" where
  "hypot2 dx dy = dx * dx + dy * dy"

definition dist_less :: "int \<Rightarrow> int option \<Rightarrow> bool" where
  "dist_less d best = (case best of None \<Rightarrow> True | Some b \<Rightarrow> d < b)"

definition cardinals :: "direction list" where
  "cardinals = [(0, -1), (0, 1), (-1, 0), (1, 0)]"

definition reverse_of :: "direction \<Rightarrow> direction" where
  "reverse_of d = (- fst d, - snd d)"

text \<open>The body of the \<^verbatim>\<open>for direction in [...]\<close> loop of \<^verbatim>\<open>seek_target\<close>, over the
  loop variables \<open>(best_dir, best_dist)\<close>.\<close>

fun seek_loop :: "Ghost \<Rightarrow> tile \<Rightarrow> direction list \<Rightarrow> direction \<times> int option
    \<Rightarrow> direction \<times> int option" where
  "seek_loop g t [] best = best"
| "seek_loop g t (direction # ds) (best_dir, best_dist) =
     (if direction = reverse_of (gh_dir g) then seek_loop g t ds (best_dir, best_dist)
      else
        (let next_col = fst t + fst direction;
             next_row = snd t + snd direction
         in if in_grid next_col next_row then
              (let dist = hypot2 (fst (gh_target g) - next_col) (snd (gh_target g) - next_row)
               in if dist_less dist best_dist
                  then seek_loop g t ds (direction, Some dist)
                  else seek_loop g t ds (best_dir, best_dist))
            else seek_loop g t ds (best_dir, best_dist)))"

definition seek_target :: "Ghost \<Rightarrow> Ghost" where
  "seek_target g =
     (let (col, row) = Ghost_get_tile g;
          g1 = (if centered (gh_x g) (gh_y g) col row
                then g\<lparr>gh_dir := fst (seek_loop g (col, row) cardinals (gh_dir g, None))\<rparr>
                else g)
      in move_in_direction g1)"

text \<open>\<^verbatim>\<open>random.choice(possible_dirs)\<close> is the element at index \<open>r mod length\<close> for the
  number \<open>r\<close> drawn in this call.\<close>

definition move_randomly :: "nat \<Rightarrow> Ghost \<Rightarrow> Ghost" where
  "move_randomly r g =
     (let (col, row) = Ghost_get_tile g;
          g1 = (if centered (gh_x g) (gh_y g) col row then
                  (let possible_dirs = filter (\<lambda>d. d \<noteq> reverse_of (gh_dir g)) cardinals
                   in if possible_dirs \<noteq> []
                      then g\<lparr>gh_dir := possible_dirs ! (r mod length possible_dirs)\<rparr>
                      else g)
                else g)
      in move_in_direction g1)"

definition Ghost_update :: "Pacman \<Rightarrow> Ghost \<Rightarrow> nat \<Rightarrow> Ghost \<Rightarrow> error + Ghost" where
  "Ghost_update pac bl r g =
     (let (col, row) = Ghost_get_tile g;
          g1 = (if gh_frightened g then
                  (let g' = g\<lparr>gh_frightened_timer := gh_frightened_timer g - 1\<rparr>
                   in if gh_frightened_timer g' \<le> 0 then unfrighten g' else g')
                else g)
      in case gh_mode g1 of
           Pen \<Rightarrow>
             (let g2 = g1\<lparr>gh_pen_timer := gh_pen_timer g1 + 1\<rparr>;
                  g3 = (if gh_pen_timer g2 mod 60 = 0
                        then g2\<lparr>gh_dir := (0, - snd (gh_dir g2))\<rparr> else g2)
              in Inr (move_in_direction g3))
         | Leaving \<Rightarrow>
             (if row > 11 then Inr (move_in_direction (g1\<lparr>gh_dir := (0, -1)\<rparr>))
              else Inr (g1\<lparr>gh_mode := Scatter, gh_dir := (-1, 0)\<rparr>))
         | Dead \<Rightarrow>
             (if col = 13 \<and> row = 11 then Inr (g1\<lparr>gh_mode := Entering, gh_dir := (0, 1)\<rparr>)
              else Inr (seek_target g1))
         | Entering \<Rightarrow>
             (if row \<ge> 14 then Inr (Ghost_reset (g1\<lparr>gh_mode := Leaving\<rparr>))
              else Inr (move_in_direction (g1\<lparr>gh_dir := (0, 1)\<rparr>)))
         | _ \<Rightarrow>
             (if gh_frightened g1 then Inr (move_randomly r g1)
              else ebind (update_target pac bl g1) (\<lambda>g2. Inr (seek_target g2))))"

subsection \<open>Game\<close>

definition ghosts :: "gname list" where
  "ghosts = [Blinky, Pinky, Inky, Clyde]"

fun get_ghost :: "gname \<Rightarrow> Game \<Rightarrow> Ghost" where
  "get_ghost Blinky g = blinky g"
| "get_ghost Pinky g = pinky g"
| "get_ghost Inky g = inky g"
| "get_ghost Clyde g = clyde g"

fun set_ghost :: "gname \<Rightarrow> Ghost \<Rightarrow> Game \<Rightarrow> Game" where
  "set_ghost Blinky gh g = g\<lparr>blinky := gh\<rparr>"
| "set_ghost Pinky gh g = g\<lparr>pinky := gh\<rparr>"
| "set_ghost Inky gh g = g\<lparr>inky := gh\<rparr>"
| "set_ghost Clyde gh g = g\<lparr>clyde := gh\<rparr>"

text \<open>\<^verbatim>\<open>reset_level\<close>: the overlay is a fresh copy of the original maze with the pellet
  under the start tile removed.\<close>

definition reset_maze :: "char list list" where
  "reset_maze =
     (let m = original_maze
      in if m ! 23 ! 13 \<in> {CHR ''.'', CHR ''o''}
         then m[23 := (m ! 23)[13 := CHR '' '']] else m)"

definition reset_level :: "Game \<Rightarrow> Game" where
  "reset_level g =
     g\<lparr>maze := reset_maze,
       pacman := Pacman_init (13, 23),
       blinky := Ghost_init Blinky (13, 11) (25, 0),
       pinky := Ghost_init Pinky (13, 14) (2, 0),
       inky := Ghost_init Inky (11, 14) (27, 29),
       clyde := Ghost_init Clyde (15, 14) (0, 29),
       pellets_eaten := 0,
       ghost_eat_count := 0,
       power_mode := False,
       power_timer := 0,
       ghost_release_timer := 0,
       ghosts_released := {}\<rparr>"

definition reset_positions :: "Game \<Rightarrow> Game" where
  "reset_positions g =
     g\<lparr>pacman := Pacman_reset (pacman g),
       blinky := Ghost_reset (blinky g),
       pinky := Ghost_reset (pinky g),
       inky := Ghost_reset (inky g),
       clyde := Ghost_reset (clyde g),
       ghost_release_timer := 0,
       ghosts_released := {},
       power_mode := False,
       power_timer := 0\<rparr>"

definition Game_init :: Game where
  "Game_init =
     reset_level
       \<lparr>state = READY, state_timer = READY_TIME, score = 0, high_score = 0,
        lives = START_LIVES, level = 1, pellets_eaten = 0, ghost_eat_count = 0,
        power_mode = False, power_timer = 0, power_pellet_blink = 0, waka_timer = 0,
        maze = maze_layout, pacman = Pacman_init (0, 0),
        blinky = Ghost_init Blinky (0, 0) (0, 0), pinky = Ghost_init Pinky (0, 0) (0, 0),
        inky = Ghost_init Inky (0, 0) (0, 0), clyde = Ghost_init Clyde (0, 0) (0, 0),
        ghost_release_timer = 0, ghosts_released = {}\<rparr>"

text \<open>The pressed arrow keys, as \<^verbatim>\<open>handle_input\<close> reads them: up, down, left, right.\<close>

record keys =
  K_UP :: bool
  K_DOWN :: bool
  K_LEFT :: bool
  K_RIGHT :: bool

definition handle_input :: "keys \<Rightarrow> Game \<Rightarrow> Game" where
  "handle_input ks g =
     (if state g = PLAYING then
        (if K_UP ks then g\<lparr>pacman := set_direction 0 (-1) (pacman g)\<rparr>
         else if K_DOWN ks then g\<lparr>pacman := set_direction 0 1 (pacman g)\<rparr>
         else if K_LEFT ks then g\<lparr>pacman := set_direction (-1) 0 (pacman g)\<rparr>
         else if K_RIGHT ks then g\<lparr>pacman := set_direction 1 0 (pacman g)\<rparr>
         else g)
      else g)"

text \<open>Lines 263--268 of \<^verbatim>\<open>update_game\<close>: animation counters and the player's move.\<close>

definition update_pacman :: "Game \<Rightarrow> error + Game" where
  "update_pacman g =
     (let g1 = g\<lparr>power_pellet_blink := (power_pellet_blink g + 1) mod 20,
                 waka_timer := (waka_timer g + 1) mod 10\<rparr>
      in ebind (Pacman_update (maze g1) (pacman g1)) (\<lambda>p. Inr (g1\<lparr>pacman := p\<rparr>)))"

text \<open>The loop \<^verbatim>\<open>for ghost in self.ghosts: if ghost.mode != "dead" and ghost.mode !=
  "entering": ghost.frighten()\<close>.\<close>

definition frighten_ghosts :: "Game \<Rightarrow> Game" where
  "frighten_ghosts g =
     fold (\<lambda>n g. if gh_mode (get_ghost n g) \<noteq> Dead \<and> gh_mode (get_ghost n g) \<noteq> Entering
                 then set_ghost n (frighten (get_ghost n g)) g else g) ghosts g"

text \<open>Lines 270--290: pellet eating at the player's tile.\<close>

definition check_pellet_eating :: "Game \<Rightarrow> error + Game" where
  "check_pellet_eating g =
     (let (col, row) = Pacman_get_tile (pacman g) in
      ebind (maze_at (maze g) row col) (\<lambda>c.
        if c = CHR ''.'' then
          ebind (maze_set (maze g) row col CHR '' '') (\<lambda>m.
            Inr (g\<lparr>maze := m, score := score g + DOT_SCORE,
                   pellets_eaten := pellets_eaten g + 1\<rparr>))
        else if c = CHR ''o'' then
          ebind (maze_set (maze g) row col CHR '' '') (\<lambda>m.
            Inr (frighten_ghosts
                  (g\<lparr>maze := m, score := score g + POWER_DOT_SCORE,
                     pellets_eaten := pellets_eaten g + 1,
                     power_mode := True, power_timer := POWER_PELLET_TIME,
                     ghost_eat_count := 0\<rparr>)))
        else Inr g))"

text \<open>Lines 292--299: the global power-mode countdown.\<close>

definition unfrighten_ghosts :: "Game \<Rightarrow> Game" where
  "unfrighten_ghosts g =
     fold (\<lambda>n g. if gh_frightened (get_ghost n g)
                 then set_ghost n (unfrighten (get_ghost n g)) g else g) ghosts g"

definition update_power_mode :: "Game \<Rightarrow> Game" where
  "update_power_mode g =
     (if power_mode g then
        (let g1 = g\<lparr>power_timer := power_timer g - 1\<rparr>
         in if power_timer g1 \<le> 0 then unfrighten_ghosts (g1\<lparr>power_mode := False\<rparr>) else g1)
      else g)"

text \<open>Lines 301--311: release from the pen.\<close>

definition release_one :: "gname \<Rightarrow> int \<Rightarrow> int \<Rightarrow> Game \<Rightarrow> Game" where
  "release_one n threshold seconds g =
     (if n \<notin> ghosts_released g \<and>
         (pellets_eaten g \<ge> threshold \<or> ghost_release_timer g > seconds * FPS)
      then (set_ghost n (release (get_ghost n g)) g)
             \<lparr>ghosts_released := insert n (ghosts_released g)\<rparr>
      else g)"

definition release_ghosts :: "Game \<Rightarrow> Game" where
  "release_ghosts g =
     (let g1 = g\<lparr>ghost_release_timer := ghost_release_timer g + 1\<rparr>;
          g2 = release_one Pinky 7 4 g1;
          g3 = release_one Inky 17 8 g2
      in release_one Clyde 32 12 g3)"

text \<open>Lines 313--315: \<^verbatim>\<open>ghost.update(self.pacman, self.blinky)\<close> for each adversary in
  order; \<open>rs n\<close> is the random number adversary \<open>n\<close> draws if it moves randomly.\<close>

fun update_ghosts_loop :: "(gname \<Rightarrow> nat) \<Rightarrow> gname list \<Rightarrow> Game \<Rightarrow> error + Game" where
  "update_ghosts_loop rs [] g = Inr g"
| "update_ghosts_loop rs (n # ns) g =
     ebind (Ghost_update (pacman g) (blinky g) (rs n) (get_ghost n g))
       (\<lambda>gh. update_ghosts_loop rs ns (set_ghost n gh g))"

definition update_ghosts :: "(gname \<Rightarrow> nat) \<Rightarrow> Game \<Rightarrow> error + Game" where
  "update_ghosts rs g = update_ghosts_loop rs ghosts g"

text \<open>\<^verbatim>\<open>pygame.Rect(x - 8, y - 8, 16, 16)\<close> is library code: it truncates float
  coordinates toward zero, and \<^verbatim>\<open>colliderect\<close> holds when the two rectangles overlap in a
  region of positive area.\<close>

type_synonym rect = "int \<times> int \<times> int \<times> int"

definition trunc :: "rat \<Rightarrow> int" where
  "trunc q = (if q \<ge> 0 then \<lfloor>q\<rfloor> else \<lceil>q\<rceil>)"

definition Rect :: "rat \<Rightarrow> rat \<Rightarrow> int \<Rightarrow> int \<Rightarrow> rect" where
  "Rect rl rt w h = (trunc rl, trunc rt, w, h)"

definition colliderect :: "rect \<Rightarrow> rect \<Rightarrow> bool" where
  "colliderect a b =
     (case (a, b) of ((ax, ay, aw, ah), (bx, by, bw, bh)) \<Rightarrow>
        aw \<noteq> 0 \<and> ah \<noteq> 0 \<and> bw \<noteq> 0 \<and> bh \<noteq> 0 \<and>
        min ax (ax + aw) < max bx (bx + bw) \<and> min ay (ay + ah) < max by (by + bh) \<and>
        max ax (ax + aw) > min bx (bx + bw) \<and> max ay (ay + ah) > min by (by + bh))"

definition pac_rect :: "Pacman \<Rightarrow> rect" where
  "pac_rect p = Rect (pac_x p - 8) (pac_y p - 8) 16 16"

definition ghost_rect :: "Ghost \<Rightarrow> rect" where
  "ghost_rect gh = Rect (gh_x gh - 8) (gh_y gh - 8) 16 16"

text \<open>Lines 317--336: the collision loop; the flag is \<open>True\<close> when the loop left
  \<^verbatim>\<open>update_game\<close> through its \<^verbatim>\<open>return\<close>.\<close>

fun collision_loop :: "gname list \<Rightarrow> Game \<Rightarrow> error + (Game \<times> bool)" where
  "collision_loop [] g = Inr (g, False)"
| "collision_loop (n # ns) g =
     (let ghost = get_ghost n g in
      if gh_mode ghost = Dead then collision_loop ns g
      else if colliderect (pac_rect (pacman g)) (ghost_rect ghost) then
        (if gh_frightened ghost then
           (let g1 = set_ghost n (die ghost) g in
            ebind (py_index GHOST_EAT_SCORES (min (ghost_eat_count g1) 3)) (\<lambda>score_gain.
              collision_loop ns
                (g1\<lparr>score := score g1 + score_gain,
                    ghost_eat_count := ghost_eat_count g1 + 1\<rparr>)))
         else Inr (g\<lparr>state := DYING, state_timer := FPS * 2\<rparr>, True))
      else collision_loop ns g)"

definition check_collisions :: "Game \<Rightarrow> error + (Game \<times> bool)" where
  "check_collisions g = collision_loop ghosts g"

text \<open>Lines 338--343: level completion.\<close>

definition check_level_completion :: "Game \<Rightarrow> Game" where
  "check_level_completion g =
     (if pellets_eaten g \<ge> total_pellets
      then (reset_level (g\<lparr>level := level g + 1\<rparr>))\<lparr>state := READY, state_timer := READY_TIME\<rparr>
      else g)"

text \<open>Everything \<^verbatim>\<open>update_game\<close> does before the collision check (lines 263--315).\<close>

definition before_collisions :: "(gname \<Rightarrow> nat) \<Rightarrow> Game \<Rightarrow> error + Game" where
  "before_collisions rs g =
     ebind (update_pacman g) (\<lambda>g1.
       ebind (check_pellet_eating g1) (\<lambda>g2.
         update_ghosts rs (release_ghosts (update_power_mode g2))))"

definition update_game :: "(gname \<Rightarrow> nat) \<Rightarrow> Game \<Rightarrow> error + Game" where
  "update_game rs g =
     ebind (before_collisions rs g) (\<lambda>g1.
       ebind (check_collisions g1) (\<lambda>(g2, returned).
         if returned then Inr g2 else Inr (check_level_completion g2)))"

definition update :: "(gname \<Rightarrow> nat) \<Rightarrow> Game \<Rightarrow> error + Game" where
  "update rs g =
     (case state g of
        READY \<Rightarrow>
          (let g1 = g\<lparr>state_timer := state_timer g - 1\<rparr>
           in if state_timer g1 \<le> 0 then Inr (g1\<lparr>state := PLAYING\<rparr>) else Inr g1)
      | PLAYING \<Rightarrow> update_game rs g
      | DYING \<Rightarrow>
          (let g1 = g\<lparr>state_timer := state_timer g - 1\<rparr>
           in if state_timer g1 \<le> 0 then
                (let g2 = g1\<lparr>lives := lives g1 - 1\<rparr>
                 in if lives g2 \<le> 0 then
                      Inr (if score g2 > high_score g2
                           then g2\<lparr>state := GAME_OVER, high_score := score g2\<rparr>
                           else g2\<lparr>state := GAME_OVER\<rparr>)
                    else Inr ((reset_positions g2)\<lparr>state := READY, state_timer := READY_TIME\<rparr>))
              else Inr g1)
      | GAME_OVER \<Rightarrow> Inr g)"

text \<open>The restart command of \<^verbatim>\<open>run\<close> (key R while the game is over).\<close>

definition restart :: "Game \<Rightarrow> Game" where
  "restart g =
     (if state g = GAME_OVER
      then (reset_level (g\<lparr>score := 0, lives := START_LIVES, level := 1\<rparr>))
             \<lparr>state := READY, state_timer := READY_TIME\<rparr>
      else g)"

text \<open>One iteration of the frame loop of \<^verbatim>\<open>run\<close>: events, input, update.\<close>

definition frame :: "bool \<Rightarrow> keys \<Rightarrow> (gname \<Rightarrow> nat) \<Rightarrow> Game \<Rightarrow> error + Game" where
  "frame r_pressed ks rs g = update rs (handle_input ks (if r_pressed then restart g else g))"

inductive reachable :: "Game \<Rightarrow> bool" where
  init: "reachable Game_init"
| step: "reachable g \<Longrightarrow> frame r_pressed ks rs g = Inr g' \<Longrightarrow> reachable g'"

subsection \<open>Runs of frames\<close>

text \<open>Consecutive calls of \<^verbatim>\<open>Ghost.update\<close> on one adversary, each with the player, the
  leader and the random number of its frame.\<close>

fun ghost_frames :: "(Pacman \<times> Ghost \<times> nat) list \<Rightarrow> Ghost \<Rightarrow> error + Ghost" where
  "ghost_frames [] g = Inr g"
| "ghost_frames ((pac, bl, r) # fs) g = ebind (Ghost_update pac bl r g) (ghost_frames fs)"

subsection \<open>Pellets left in the overlay\<close>

text \<open>The number of pellets and power pellets an overlay holds, counted as
  \<^verbatim>\<open>count_pellets\<close> counts the layout.\<close>

definition row_pellets :: "char list \<Rightarrow> int" where
  "row_pellets row = int (count_list row CHR ''.'') + int (count_list row CHR ''o'')"

definition remaining_pellets :: "char list list \<Rightarrow> int" where
  "remaining_pellets m = sum_list (map row_pellets m)"

definition pellet_inv :: "Game \<Rightarrow> bool" where
  "pellet_inv g \<longleftrightarrow>
     pellets_eaten g + remaining_pellets (maze g) + 1 = total_pellets \<and> level g = 1"

definition no_keys :: keys where
  "no_keys = \<lparr>K_UP = False, K_DOWN = False, K_LEFT = False, K_RIGHT = False\<rparr>"

subsection \<open>Vocabulary of the statements\<close>

text \<open>The game as it stands when the ready countdown has just ended.\<close>

definition playing_start :: Game where
  "playing_start = Game_init\<lparr>state := PLAYING, state_timer := 0\<rparr>"

text \<open>An adversary the collision loop would eat, and one that would kill the player.\<close>

definition edible :: "Game \<Rightarrow> gname \<Rightarrow> bool" where
  "edible g n \<longleftrightarrow>
     gh_mode (get_ghost n g) \<noteq> Dead \<and> gh_frightened (get_ghost n g) \<and>
     colliderect (pac_rect (pacman g)) (ghost_rect (get_ghost n g))"

definition lethal :: "Game \<Rightarrow> gname \<Rightarrow> bool" where
  "lethal g n \<longleftrightarrow>
     gh_mode (get_ghost n g) \<noteq> Dead \<and> \<not> gh_frightened (get_ghost n g) \<and>
     colliderect (pac_rect (pacman g)) (ghost_rect (get_ghost n g))"

text \<open>The adversaries the loop reaches before it returns, and the kills among them.\<close>

definition checked :: "Game \<Rightarrow> gname list \<Rightarrow> gname list" where
  "checked g ns = takeWhile (\<lambda>n. \<not> lethal g n) ns"

definition kills :: "Game \<Rightarrow> gname list \<Rightarrow> nat" where
  "kills g ns = length (filter (edible g) (checked g ns))"

text \<open>The award sequence as the specification words it: 200, 400, 800, 1600, indexed by the
  streak counter and capped at its last value.\<close>

definition spec_award :: "nat \<Rightarrow> int" where
  "spec_award k = (if k = 0 then 200 else if k = 1 then 400 else if k = 2 then 800 else 1600)"

text \<open>The part of the round state the collision loop never writes.\<close>

definition round_rest :: "Game \<Rightarrow>
    int \<times> int \<times> int \<times> int \<times> bool \<times> int \<times> int \<times> int \<times> char list list \<times> Pacman \<times> int \<times> gname set" where
  "round_rest g =
     (high_score g, lives g, level g, pellets_eaten g, power_mode g, power_timer g,
      power_pellet_blink g, waka_timer g, maze g, pacman g, ghost_release_timer g,
      ghosts_released g)"

subsection \<open>Sample states\<close>




text \<open>The first playing frame with the player standing still as \<open>pac\<close> and the
  pellets-eaten counter, the release timer and the released set forced to given values; and
  the state one frame later, before collisions are checked: Blinky has taken its first step
  to the right, the others their first step in the pen or out of it.\<close>

definition quiet_start :: "Pacman \<Rightarrow> int \<Rightarrow> int \<Rightarrow> gname set \<Rightarrow> Game" where
  "quiet_start pac p t R =
     playing_start\<lparr>pacman := pac, pellets_eaten := p, ghost_release_timer := t,
                   ghosts_released := R\<rparr>"

definition first_step :: "Ghost \<Rightarrow> Ghost" where
  "first_step gh =
     (if gh_mode gh = Leaving then gh\<lparr>gh_y := gh_y gh - 6 / 5\<rparr>
      else gh\<lparr>gh_y := gh_y gh + 6 / 5, gh_pen_timer := 1\<rparr>)"

definition after_quiet_start :: "Pacman \<Rightarrow> int \<Rightarrow> int \<Rightarrow> gname set \<Rightarrow> Game" where
  "after_quiet_start pac p t R =
     (let d = release_ghosts
                ((quiet_start pac p t R)\<lparr>power_pellet_blink := 1, waka_timer := 1\<rparr>)
      in d\<lparr>blinky := (blinky d)\<lparr>gh_x := 1356 / 5, gh_dir := (1, 0)\<rparr>,
            pinky := first_step (pinky d),
            inky := first_step (inky d),
            clyde := first_step (clyde d)\<rparr>)"

definition standing :: "rat \<Rightarrow> rat \<Rightarrow> Pacman" where
  "standing x y = (Pacman_init (13, 23))\<lparr>pac_x := x, pac_y := y\<rparr>"

text \<open>An adversary about to leave the tunnel row on the right, and the player about to leave
  it on the left.\<close>

definition tunnel_ghost :: Ghost where
  "tunnel_ghost = (Ghost_init Blinky (27, 14) (25, 0))\<lparr>gh_dir := (1, 0), gh_x := 559\<rparr>"

definition tunnel_pacman :: Pacman where
  "tunnel_pacman = (Pacman_init (0, 14))\<lparr>pac_dir := (-1, 0), pac_x := 1\<rparr>"

text \<open>Vocabulary for the intersection choice: the tile one step ahead, the Euclidean distance
  between tiles, and the directions the loop of \<^verbatim>\<open>seek_target\<close> compares (not the reverse
  of the current direction, and one step ahead still inside the grid), in the loop's order.\<close>

definition ahead :: "Ghost \<Rightarrow> direction \<Rightarrow> tile" where
  "ahead g c = (fst (Ghost_get_tile g) + fst c, snd (Ghost_get_tile g) + snd c)"

definition euclid :: "tile \<Rightarrow> tile \<Rightarrow> real" where
  "euclid a b = sqrt (of_int (hypot2 (fst a - fst b) (snd a - snd b)))"

definition seek_candidates :: "Ghost \<Rightarrow> direction list" where
  "seek_candidates g =
     filter (\<lambda>c. c \<noteq> reverse_of (gh_dir g) \<and> in_grid (fst (ahead g c)) (snd (ahead g c)))
       cardinals"

definition at_centre :: "Ghost \<Rightarrow> bool" where
  "at_centre g \<longleftrightarrow>
     centered (gh_x g) (gh_y g) (fst (Ghost_get_tile g)) (snd (Ghost_get_tile g))"

text \<open>Blinky arriving at its scatter corner, tile (25, 0) in the top row, moving right: where
  381 calls of \<^verbatim>\<open>Ghost.update\<close> take it from its start tile. And Blinky two steps after its
  start, between two tile centres.\<close>

definition corner_ghost :: Ghost where
  "corner_ghost =
     (Ghost_init Blinky (13, 11) (25, 0))\<lparr>gh_x := 2544 / 5, gh_y := 58 / 5, gh_dir := (1, 0)\<rparr>"

definition blinky_under_way :: Ghost where
  "blinky_under_way = (Ghost_init Blinky (13, 11) (25, 0))\<lparr>gh_x := 1362 / 5, gh_dir := (1, 0)\<rparr>"

subsection \<open>The specification's words, for comparison\<close>

text \<open>Tunnel wraparound as the specification words it: a horizontal position beyond the right
  bound reappears at the left edge and one beyond the left bound at the right edge, both half
  a tile inside; a position within the bounds stays.\<close>

definition spec_tunnel_wrap :: "rat \<Rightarrow> rat" where
  "spec_tunnel_wrap x =
     (if x < 0 then of_int (SCREEN_WIDTH - TILE_SIZE div 2)
      else if x \<ge> of_int SCREEN_WIDTH then of_int (TILE_SIZE div 2)
      else x)"

text \<open>The intersection choice as the specification words it: the candidates are the four
  cardinal directions without the direct reverse of the current direction, in the order up,
  down, left, right; the choice is the first of them whose tile one step ahead is nearest to
  the target.\<close>

definition spec_candidates :: "Ghost \<Rightarrow> direction list" where
  "spec_candidates g = filter (\<lambda>c. c \<noteq> reverse_of (gh_dir g)) cardinals"

definition spec_seek_dir :: "Ghost \<Rightarrow> direction" where
  "spec_seek_dir g =
     (case filter (\<lambda>c. \<forall>c' \<in> set (spec_candidates g).
                      euclid (gh_target g) (ahead g c) \<le> euclid (gh_target g) (ahead g c'))
             (spec_candidates g) of
        [] \<Rightarrow> gh_dir g
      | c # _ \<Rightarrow> c)"

section \<open>Basic facts\<close>

lemmas consts_defs = TILE_SIZE_def MAZE_COLS_def MAZE_ROWS_def SCREEN_WIDTH_def FPS_def
  START_LIVES_def DOT_SCORE_def POWER_DOT_SCORE_def POWER_PELLET_TIME_def READY_TIME_def

lemma ebind_Inr [simp]: "ebind (Inr v) f = f v"
  by (simp add: ebind_def)

lemma ebind_Inl [simp]: "ebind (Inl e) f = Inl e"
  by (simp add: ebind_def)

lemma ebind_eq_Inr: "ebind m f = Inr y \<longleftrightarrow> (\<exists>v. m = Inr v \<and> f v = Inr y)"
  by (cases m) simp_all

lemma set_ghost_fields [simp]:
  "state (set_ghost n gh g) = state g"
  "state_timer (set_ghost n gh g) = state_timer g"
  "score (set_ghost n gh g) = score g"
  "high_score (set_ghost n gh g) = high_score g"
  "lives (set_ghost n gh g) = lives g"
  "level (set_ghost n gh g) = level g"
  "pellets_eaten (set_ghost n gh g) = pellets_eaten g"
  "ghost_eat_count (set_ghost n gh g) = ghost_eat_count g"
  "power_mode (set_ghost n gh g) = power_mode g"
  "power_timer (set_ghost n gh g) = power_timer g"
  "power_pellet_blink (set_ghost n gh g) = power_pellet_blink g"
  "waka_timer (set_ghost n gh g) = waka_timer g"
  "maze (set_ghost n gh g) = maze g"
  "pacman (set_ghost n gh g) = pacman g"
  "ghost_release_timer (set_ghost n gh g) = ghost_release_timer g"
  "ghosts_released (set_ghost n gh g) = ghosts_released g"
  by (cases n; simp)+

lemma get_set_ghost [simp]:
  "get_ghost n (set_ghost m gh g) = (if n = m then gh else get_ghost n g)"
  by (cases n; cases m; simp)

lemma count_list_update:
  "j < length xs \<Longrightarrow>
   int (count_list (xs[j := v]) a)
     = int (count_list xs a) - (if xs ! j = a then 1 else 0) + (if v = a then 1 else 0)"
proof (induction xs arbitrary: j)
  case Nil
  then show ?case by simp
next
  case (Cons x xs)
  show ?case
  proof (cases j)
    case 0
    then show ?thesis by simp
  next
    case (Suc k)
    with Cons.prems have "k < length xs" by simp
    from Cons.IH[OF this] Suc show ?thesis by (auto split: if_splits)
  qed
qed

lemma sum_list_map_update:
  fixes f :: "'a \<Rightarrow> int"
  shows "i < length xs \<Longrightarrow>
    sum_list (map f (xs[i := y])) = sum_list (map f xs) - f (xs ! i) + f y"
proof (induction xs arbitrary: i)
  case Nil
  then show ?case by simp
next
  case (Cons x xs)
  show ?case
  proof (cases i)
    case 0
    then show ?thesis by simp
  next
    case (Suc k)
    with Cons.prems have "k < length xs" by simp
    from Cons.IH[OF this] Suc show ?thesis by simp
  qed
qed

lemma py_index_InrD:
  assumes "py_index xs i = Inr v"
  shows "nat (if i < 0 then i + int (length xs) else i) < length xs
       \<and> v = xs ! nat (if i < 0 then i + int (length xs) else i)"
  using assms by (auto simp: py_index_def Let_def split: if_splits)

lemma py_store_InrD:
  assumes "py_store xs i v = Inr ys"
  shows "nat (if i < 0 then i + int (length xs) else i) < length xs
       \<and> ys = xs[nat (if i < 0 then i + int (length xs) else i) := v]"
  using assms by (auto simp: py_store_def Let_def split: if_splits)

lemma row_pellets_clear:
  assumes "j < length r" "r ! j = CHR ''.'' \<or> r ! j = CHR ''o''"
  shows "row_pellets (r[j := CHR '' '']) + 1 = row_pellets r"
  using assms by (auto simp: row_pellets_def count_list_update)

lemma eat_pellet_count:
  assumes "maze_at m row col = Inr c" "c = CHR ''.'' \<or> c = CHR ''o''"
    and "maze_set m row col CHR '' '' = Inr m'"
  shows "remaining_pellets m' + 1 = remaining_pellets m"
proof -
  define i where "i = nat (if row < 0 then row + int (length m) else row)"
  define r where "r = m ! i"
  define j where "j = nat (if col < 0 then col + int (length r) else col)"
  from assms(1) have a: "py_index m row = Inr r" "i < length m" and b: "py_index r col = Inr c"
    using py_index_InrD[of m row] by (auto simp: maze_at_def ebind_eq_Inr i_def r_def)
  from b have c: "j < length r" "c = r ! j"
    using py_index_InrD[of r col c] by (auto simp: j_def)
  from assms(3) a obtain r' where r': "py_store r col CHR '' '' = Inr r'" "py_store m row r' = Inr m'"
    by (auto simp: maze_set_def ebind_eq_Inr)
  from r' have m': "m' = m[i := r[j := CHR '' '']]"
    using py_store_InrD[of r col "CHR '' ''" r'] py_store_InrD[of m row r' m']
    by (auto simp: i_def j_def)
  have "row_pellets (r[j := CHR '' '']) + 1 = row_pellets r"
    using row_pellets_clear[OF c(1)] c(2) assms(2) by simp
  then show ?thesis
    using a(2) by (simp add: m' remaining_pellets_def sum_list_map_update r_def)
qed

section \<open>Adversaries are not stopped by walls\<close>

text \<open>An adversary waiting in the pen moves down by its speed in every frame until the pen
  timer reaches 60; no tile is consulted.\<close>

lemma pen_step:
  assumes "k < 59"
  shows "Ghost_update pac bl r
           ((Ghost_init Pinky (13, 14) (2, 0))
              \<lparr>gh_y := 290 + of_nat k * (6 / 5), gh_pen_timer := int k\<rparr>)
         = Inr ((Ghost_init Pinky (13, 14) (2, 0))
              \<lparr>gh_y := 290 + of_nat (Suc k) * (6 / 5), gh_pen_timer := int (Suc k)\<rparr>)"
proof -
  have m: "(int k + 1) mod 60 \<noteq> 0" using assms by presburger
  show ?thesis
    using m
    by (simp add: Ghost_update_def Ghost_init_def Ghost_reset_def Ghost_get_tile_def
        move_in_direction_def Let_def consts_defs field_simps)
qed

lemma pen_drift:
  "length fs = n \<Longrightarrow> k + n \<le> 59 \<Longrightarrow>
   ghost_frames fs ((Ghost_init Pinky (13, 14) (2, 0))
              \<lparr>gh_y := 290 + of_nat k * (6 / 5), gh_pen_timer := int k\<rparr>)
     = Inr ((Ghost_init Pinky (13, 14) (2, 0))
              \<lparr>gh_y := 290 + of_nat (k + n) * (6 / 5), gh_pen_timer := int (k + n)\<rparr>)"
proof (induction fs arbitrary: k n)
  case Nil
  then show ?case by simp
next
  case (Cons f fs)
  obtain pac bl r where f: "f = (pac, bl, r)" by (cases f)
  from Cons.prems obtain m where n: "n = Suc m" "length fs = m" by (cases n) auto
  have "k < 59" using Cons.prems n by simp
  note s = pen_step[OF this, of pac bl r]
  have "ghost_frames fs ((Ghost_init Pinky (13, 14) (2, 0))
              \<lparr>gh_y := 290 + of_nat (Suc k) * (6 / 5), gh_pen_timer := int (Suc k)\<rparr>)
     = Inr ((Ghost_init Pinky (13, 14) (2, 0))
              \<lparr>gh_y := 290 + of_nat (Suc k + m) * (6 / 5), gh_pen_timer := int (Suc k + m)\<rparr>)"
    using Cons.IH[of m "Suc k"] n Cons.prems by simp
  then show ?case using s f n by simp
qed

lemma pinky_start:
  "(Ghost_init Pinky (13, 14) (2, 0))\<lparr>gh_y := 290 + of_nat 0 * (6 / 5), gh_pen_timer := int 0\<rparr>
     = Ghost_init Pinky (13, 14) (2, 0)"
  by (simp add: Ghost_init_def Ghost_reset_def consts_defs)

text \<open>
  Claim C1 (walls stop every agent: a move into a wall tile is rejected, so no agent's
  position resolves to a wall tile). The code does not do this for adversaries: Pinky, as
  \<^verbatim>\<open>reset_level\<close> creates it, is updated 26 times (whatever the player and the leader do);
  every update succeeds, and Pinky then stands on tile (13, 16), which is a wall of the maze,
  having started on the open tile (13, 14).
\<close>

theorem C1_pinky_walks_into_wall:
  "\<exists>g'. ghost_frames (replicate 26 (pac, bl, r)) (Ghost_init Pinky (13, 14) (2, 0)) = Inr g'
        \<and> Ghost_get_tile g' = (13, 16)
        \<and> gh_mode g' = Pen
        \<and> maze_at original_maze 16 13 = Inr CHR ''#''
        \<and> maze_at original_maze 14 13 = Inr CHR '' ''
        \<and> Ghost_get_tile (Ghost_init Pinky (13, 14) (2, 0)) = (13, 14)"
proof -
  have run: "ghost_frames (replicate 26 (pac, bl, r)) (Ghost_init Pinky (13, 14) (2, 0))
     = Inr ((Ghost_init Pinky (13, 14) (2, 0))
              \<lparr>gh_y := 290 + of_nat (0 + 26) * (6 / 5), gh_pen_timer := int (0 + 26)\<rparr>)"
    using pen_drift[of "replicate 26 (pac, bl, r)" 26 0] by (simp only: pinky_start) simp
  have tile: "Ghost_get_tile ((Ghost_init Pinky (13, 14) (2, 0))
              \<lparr>gh_y := 290 + of_nat (0 + 26) * (6 / 5), gh_pen_timer := int (0 + 26)\<rparr>) = (13, 16)"
    by (simp add: Ghost_init_def Ghost_reset_def Ghost_get_tile_def tile_of_def consts_defs
        floor_eq_iff)
  have md: "gh_mode ((Ghost_init Pinky (13, 14) (2, 0))
              \<lparr>gh_y := 290 + of_nat (0 + 26) * (6 / 5), gh_pen_timer := int (0 + 26)\<rparr>) = Pen"
    by (simp add: Ghost_init_def Ghost_reset_def)
  have wall: "maze_at original_maze 16 13 = Inr CHR ''#''"
    by (simp add: maze_at_def original_maze_def maze_layout_def py_index_def)
  have floor_tile: "maze_at original_maze 14 13 = Inr CHR '' ''"
    by (simp add: maze_at_def original_maze_def maze_layout_def py_index_def)
  have start: "Ghost_get_tile (Ghost_init Pinky (13, 14) (2, 0)) = (13, 14)"
    by (simp add: Ghost_init_def Ghost_reset_def Ghost_get_tile_def tile_of_def consts_defs
        floor_eq_iff)
  show ?thesis using run tile md wall floor_tile start by blast
qed

section \<open>The shy adversary's chase target\<close>


section \<open>The level never completes\<close>

lemma total_pellets_244: "total_pellets = 244"
  by (simp add: total_pellets_def count_pellets_def maze_layout_def)

lemma layout_remaining: "remaining_pellets maze_layout = 244"
  by (simp add: remaining_pellets_def row_pellets_def maze_layout_def)

lemma reset_maze_remaining: "remaining_pellets reset_maze = 243"
proof -
  have l: "(23::nat) < length maze_layout" "(13::nat) < length (maze_layout ! 23)"
    and c: "maze_layout ! 23 ! 13 = CHR ''.''"
    by (simp_all add: maze_layout_def)
  have "row_pellets ((maze_layout ! 23)[13 := CHR '' '']) + 1 = row_pellets (maze_layout ! 23)"
    using row_pellets_clear[OF l(2)] c by simp
  then have "remaining_pellets (maze_layout[23 := (maze_layout ! 23)[13 := CHR '' '']]) + 1
      = remaining_pellets maze_layout"
    using l(1) by (simp add: remaining_pellets_def sum_list_map_update)
  then show ?thesis
    using c by (simp add: reset_maze_def original_maze_def layout_remaining)
qed

lemma frighten_ghosts_fields [simp]:
  "maze (frighten_ghosts g) = maze g"
  "pellets_eaten (frighten_ghosts g) = pellets_eaten g"
  "level (frighten_ghosts g) = level g"
  by (simp_all add: frighten_ghosts_def ghosts_def)

lemma unfrighten_ghosts_fields [simp]:
  "maze (unfrighten_ghosts g) = maze g"
  "pellets_eaten (unfrighten_ghosts g) = pellets_eaten g"
  "level (unfrighten_ghosts g) = level g"
  by (simp_all add: unfrighten_ghosts_def ghosts_def)

lemma update_power_mode_fields [simp]:
  "maze (update_power_mode g) = maze g"
  "pellets_eaten (update_power_mode g) = pellets_eaten g"
  "level (update_power_mode g) = level g"
  by (simp_all add: update_power_mode_def Let_def)

lemma release_one_fields [simp]:
  "maze (release_one n t s g) = maze g"
  "pellets_eaten (release_one n t s g) = pellets_eaten g"
  "level (release_one n t s g) = level g"
  by (simp_all add: release_one_def)

lemma release_ghosts_fields [simp]:
  "maze (release_ghosts g) = maze g"
  "pellets_eaten (release_ghosts g) = pellets_eaten g"
  "level (release_ghosts g) = level g"
  by (simp_all add: release_ghosts_def Let_def)

lemma update_ghosts_loop_fields:
  "update_ghosts_loop rs ns g = Inr g' \<Longrightarrow>
   maze g' = maze g \<and> pellets_eaten g' = pellets_eaten g \<and> level g' = level g"
proof (induction ns arbitrary: g)
  case Nil
  then show ?case by simp
next
  case (Cons n ns)
  then show ?case by (fastforce simp: ebind_eq_Inr)
qed

lemma collision_loop_fields:
  "collision_loop ns g = Inr (g', b) \<Longrightarrow>
   maze g' = maze g \<and> pellets_eaten g' = pellets_eaten g \<and> level g' = level g"
proof (induction ns arbitrary: g)
  case Nil
  then show ?case by simp
next
  case (Cons n ns)
  then show ?case
    by (fastforce simp: ebind_eq_Inr Let_def split: if_splits)
qed

lemma update_pacman_fields:
  "update_pacman g = Inr g' \<Longrightarrow>
   maze g' = maze g \<and> pellets_eaten g' = pellets_eaten g \<and> level g' = level g"
  by (auto simp: update_pacman_def Let_def ebind_eq_Inr)

lemma check_pellet_eating_inv:
  assumes "check_pellet_eating g = Inr g'"
  shows "pellets_eaten g' + remaining_pellets (maze g') = pellets_eaten g + remaining_pellets (maze g)
       \<and> level g' = level g"
proof -
  obtain col row where t: "Pacman_get_tile (pacman g) = (col, row)" by (cases "Pacman_get_tile (pacman g)")
  from assms t obtain c where c: "maze_at (maze g) row col = Inr c"
    by (auto simp: check_pellet_eating_def ebind_eq_Inr)
  show ?thesis
  proof (cases "c = CHR ''.'' \<or> c = CHR ''o''")
    case True
    with assms t c obtain m where m: "maze_set (maze g) row col CHR '' '' = Inr m" "maze g' = m"
      "pellets_eaten g' = pellets_eaten g + 1" "level g' = level g"
      by (auto simp: check_pellet_eating_def ebind_eq_Inr split: if_splits)
    from eat_pellet_count[OF c True m(1)] m show ?thesis by simp
  next
    case False
    with assms t c have "g' = g" by (auto simp: check_pellet_eating_def)
    then show ?thesis by simp
  qed
qed

lemma remaining_pellets_nonneg: "0 \<le> remaining_pellets m"
  unfolding remaining_pellets_def
  by (rule sum_list_nonneg) (auto simp: row_pellets_def)

lemma update_game_inv:
  assumes "pellet_inv g" "update_game rs g = Inr g'"
  shows "pellet_inv g'"
proof -
  from assms(2) obtain g1 g2 b where
    bc: "before_collisions rs g = Inr g1" and cc: "check_collisions g1 = Inr (g2, b)"
    and fin: "g' = (if b then g2 else check_level_completion g2)"
    by (auto simp: update_game_def ebind_eq_Inr split: if_splits)
  from bc obtain a1 a2 where a1: "update_pacman g = Inr a1" and a2: "check_pellet_eating a1 = Inr a2"
    and a3: "update_ghosts rs (release_ghosts (update_power_mode a2)) = Inr g1"
    by (auto simp: before_collisions_def ebind_eq_Inr)
  have "pellet_inv a1" using update_pacman_fields[OF a1] assms(1) by (simp add: pellet_inv_def)
  then have "pellet_inv a2" using check_pellet_eating_inv[OF a2] by (simp add: pellet_inv_def)
  then have "pellet_inv g1"
    using update_ghosts_loop_fields[OF a3[unfolded update_ghosts_def]] by (simp add: pellet_inv_def)
  then have g2: "pellet_inv g2"
    using collision_loop_fields[OF cc[unfolded check_collisions_def]] by (simp add: pellet_inv_def)
  then have "pellets_eaten g2 < total_pellets"
    using remaining_pellets_nonneg[of "maze g2"] by (simp add: pellet_inv_def)
  then have "check_level_completion g2 = g2" by (simp add: check_level_completion_def)
  with fin g2 show ?thesis by simp
qed

lemma reset_level_inv: "level g = 1 \<Longrightarrow> pellet_inv (reset_level g)"
  by (simp add: pellet_inv_def reset_level_def reset_maze_remaining total_pellets_244)

lemma Game_init_inv: "pellet_inv Game_init"
  by (simp add: Game_init_def reset_level_inv)

lemma restart_inv: "pellet_inv g \<Longrightarrow> pellet_inv (restart g)"
  using reset_level_inv[of "g\<lparr>score := 0, lives := START_LIVES, level := 1\<rparr>"]
  by (simp add: restart_def pellet_inv_def)

lemma handle_input_inv: "pellet_inv g \<Longrightarrow> pellet_inv (handle_input ks g)"
  by (simp add: handle_input_def pellet_inv_def)

lemma update_inv:
  assumes "pellet_inv g" "update rs g = Inr g'"
  shows "pellet_inv g'"
proof (cases "state g")
  case READY
  with assms show ?thesis by (auto simp: update_def Let_def pellet_inv_def split: if_splits)
next
  case PLAYING
  with assms update_game_inv show ?thesis by (simp add: update_def)
next
  case DYING
  with assms show ?thesis
    by (auto simp: update_def Let_def pellet_inv_def reset_positions_def split: if_splits)
next
  case GAME_OVER
  with assms show ?thesis by (simp add: update_def)
qed

lemma reachable_inv: "reachable g \<Longrightarrow> pellet_inv g"
proof (induction rule: reachable.induct)
  case init
  show ?case by (rule Game_init_inv)
next
  case (step g r_pressed ks rs g')
  have "pellet_inv (handle_input ks (if r_pressed then restart g else g))"
    using step.IH by (simp add: handle_input_inv restart_inv)
  with step.hyps(2) show ?case unfolding frame_def by (rule update_inv[rotated -1])
qed

lemma first_frame:
  "frame False no_keys rs Game_init = Inr (Game_init\<lparr>state_timer := 119\<rparr>)"
  by (simp add: frame_def handle_input_def update_def Game_init_def reset_level_def
      Let_def consts_defs)

lemma reachable_first_frame: "reachable (Game_init\<lparr>state_timer := 119\<rparr>)"
  using reachable.step[OF reachable.init first_frame] .

text \<open>
  Claim C3 (in every state reachable during a level the pellets-eaten counter is strictly
  below the total-pellets constant, because \<^verbatim>\<open>reset_level\<close> removes the pellet under the
  start tile without counting it; hence the level-completion condition never fires).
  Reachable states are those the frame loop produces from the initial game under any keys,
  restarts and random draws. In each of them the counter plus the pellets left in the overlay
  is the total minus one, so the counter is below the total and the level is still 1.
\<close>

theorem C3_level_never_completes:
  "reachable g \<Longrightarrow>
     pellets_eaten g < total_pellets \<and> level g = 1 \<and>
     pellets_eaten g + remaining_pellets (maze g) = total_pellets - 1"
proof -
  assume "reachable g"
  then have "pellet_inv g" by (rule reachable_inv)
  then show ?thesis
    using remaining_pellets_nonneg[of "maze g"] by (simp add: pellet_inv_def)
qed

theorem C3_level_never_completes_witness:
  "pellets_eaten (Game_init\<lparr>state_timer := 119\<rparr>) < total_pellets \<and>
   level (Game_init\<lparr>state_timer := 119\<rparr>) = 1 \<and>
   pellets_eaten (Game_init\<lparr>state_timer := 119\<rparr>)
     + remaining_pellets (maze (Game_init\<lparr>state_timer := 119\<rparr>)) = total_pellets - 1"
  by (rule C3_level_never_completes[OF reachable_first_frame])

section \<open>Power pellets and frightening\<close>

lemma floor_rat_numeral [simp]: "\<lfloor>(numeral a :: rat) / numeral b\<rfloor> = numeral a div numeral b"
  using floor_divide_of_int_eq[of "numeral a" "numeral b", where ?'a = rat] by simp


lemma frighten_ghosts_round [simp]:
  "state (frighten_ghosts g) = state g"
  "state_timer (frighten_ghosts g) = state_timer g"
  "score (frighten_ghosts g) = score g"
  "high_score (frighten_ghosts g) = high_score g"
  "lives (frighten_ghosts g) = lives g"
  "ghost_eat_count (frighten_ghosts g) = ghost_eat_count g"
  "power_mode (frighten_ghosts g) = power_mode g"
  "power_timer (frighten_ghosts g) = power_timer g"
  "pacman (frighten_ghosts g) = pacman g"
  "ghost_release_timer (frighten_ghosts g) = ghost_release_timer g"
  "ghosts_released (frighten_ghosts g) = ghosts_released g"
  by (simp_all add: frighten_ghosts_def ghosts_def)



section \<open>The collision loop\<close>

lemma award_index:
  "0 \<le> c \<Longrightarrow> py_index GHOST_EAT_SCORES (min c 3) = Inr (spec_award (nat c))"
proof -
  assume "0 \<le> c"
  then consider "c = 0" | "c = 1" | "c = 2" | "3 \<le> c" by linarith
  then show ?thesis
    by cases (auto simp: py_index_def GHOST_EAT_SCORES_def spec_award_def Let_def min_def)
qed

lemma lethal_after_kill:
  "m \<in> set ns \<Longrightarrow> n \<notin> set ns \<Longrightarrow>
   lethal ((set_ghost n gh g)\<lparr>score := s, ghost_eat_count := c\<rparr>) m = lethal g m"
  by (cases n; cases m) (auto simp: lethal_def)

lemma edible_after_kill:
  "m \<in> set ns \<Longrightarrow> n \<notin> set ns \<Longrightarrow>
   edible ((set_ghost n gh g)\<lparr>score := s, ghost_eat_count := c\<rparr>) m = edible g m"
  by (cases n; cases m) (auto simp: edible_def)

lemma checked_after_kill:
  "n \<notin> set ns \<Longrightarrow>
   checked ((set_ghost n gh g)\<lparr>score := s, ghost_eat_count := c\<rparr>) ns = checked g ns"
  unfolding checked_def by (rule takeWhile_cong[OF refl]) (simp add: lethal_after_kill[of _ ns])

lemma kills_after_kill:
  assumes "n \<notin> set ns"
  shows "kills ((set_ghost n gh g)\<lparr>score := s, ghost_eat_count := c\<rparr>) ns = kills g ns"
proof -
  have "edible ((set_ghost n gh g)\<lparr>score := s, ghost_eat_count := c\<rparr>) x = edible g x"
    if "x \<in> set (checked g ns)" for x
  proof -
    from that have "x \<in> set ns" unfolding checked_def by (rule set_takeWhileD[THEN conjunct1])
    then show ?thesis using assms by (rule edible_after_kill)
  qed
  then have "filter (edible ((set_ghost n gh g)\<lparr>score := s, ghost_eat_count := c\<rparr>)) (checked g ns)
      = filter (edible g) (checked g ns)"
    by (rule filter_cong[OF refl])
  then show ?thesis using assms by (simp add: kills_def checked_after_kill)
qed

lemma get_ghost_after_kill [simp]:
  "get_ghost m (g\<lparr>score := s, ghost_eat_count := c\<rparr>) = get_ghost m g"
  by (cases m) simp_all

lemma get_ghost_dying [simp]:
  "get_ghost m (g\<lparr>state := s, state_timer := c\<rparr>) = get_ghost m g"
  by (cases m) simp_all

lemma round_rest_set_ghost [simp]: "round_rest (set_ghost n gh g) = round_rest g"
  by (simp add: round_rest_def)

lemma collision_loop_result:
  assumes "distinct ns" "0 \<le> ghost_eat_count g"
  shows "\<exists>g'. collision_loop ns g = Inr (g', \<exists>n\<in>set ns. lethal g n)
     \<and> ghost_eat_count g' = ghost_eat_count g + int (kills g ns)
     \<and> score g' = score g + (\<Sum>j<kills g ns. spec_award (nat (ghost_eat_count g) + j))
     \<and> (\<forall>n. get_ghost n g' =
           (if n \<in> set (checked g ns) \<and> edible g n then die (get_ghost n g) else get_ghost n g))
     \<and> state g' = (if \<exists>n\<in>set ns. lethal g n then DYING else state g)
     \<and> state_timer g' = (if \<exists>n\<in>set ns. lethal g n then FPS * 2 else state_timer g)
     \<and> round_rest g' = round_rest g"
  using assms
proof (induction ns arbitrary: g)
  case Nil
  then show ?case by (simp add: kills_def checked_def)
next
  case (Cons n ns)
  let ?gh = "get_ghost n g"
  have d: "distinct ns" "n \<notin> set ns" using Cons.prems by simp_all
  consider (skip) "\<not> lethal g n" "\<not> edible g n" | (eat) "edible g n" | (death) "lethal g n"
    by blast
  then show ?case
  proof cases
    case skip
    then have step: "collision_loop (n # ns) g = collision_loop ns g"
      by (auto simp: lethal_def edible_def Let_def)
    have k: "kills g (n # ns) = kills g ns" "checked g (n # ns) = n # checked g ns"
      using skip by (simp_all add: kills_def checked_def)
    from Cons.IH[OF d(1) Cons.prems(2)] obtain g' where g':
      "collision_loop ns g = Inr (g', \<exists>n\<in>set ns. lethal g n)"
      "ghost_eat_count g' = ghost_eat_count g + int (kills g ns)"
      "score g' = score g + (\<Sum>j<kills g ns. spec_award (nat (ghost_eat_count g) + j))"
      "\<forall>m. get_ghost m g' =
           (if m \<in> set (checked g ns) \<and> edible g m then die (get_ghost m g) else get_ghost m g)"
      "state g' = (if \<exists>n\<in>set ns. lethal g n then DYING else state g)"
      "state_timer g' = (if \<exists>n\<in>set ns. lethal g n then FPS * 2 else state_timer g)"
      "round_rest g' = round_rest g"
      by blast
    have r: "collision_loop (n # ns) g = Inr (g', \<exists>m\<in>set (n # ns). lethal g m)"
      unfolding step using g'(1) skip by simp
    show ?thesis
      apply (rule exI[of _ g'])
      using g'(2-) r skip by (simp add: k del: collision_loop.simps)
  next
    case eat
    then have nl: "\<not> lethal g n" by (auto simp: edible_def lethal_def)
    define g2 where "g2 = (set_ghost n (die ?gh) g)\<lparr>score := score g + spec_award (nat (ghost_eat_count g)),
                    ghost_eat_count := ghost_eat_count g + 1\<rparr>"
    have step: "collision_loop (n # ns) g = collision_loop ns g2"
      using eat award_index[OF Cons.prems(2)] by (simp add: edible_def Let_def g2_def)
    have k: "kills g (n # ns) = Suc (kills g ns)" "checked g (n # ns) = n # checked g ns"
      using eat nl by (simp_all add: kills_def checked_def)
    have same: "kills g2 ns = kills g ns" "checked g2 ns = checked g ns"
      "\<And>m. m \<in> set ns \<Longrightarrow> lethal g2 m = lethal g m"
      "\<And>m. m \<in> set ns \<Longrightarrow> edible g2 m = edible g m"
      using d(2) by (simp_all add: g2_def kills_after_kill checked_after_kill
          lethal_after_kill[of _ ns] edible_after_kill[of _ ns])
    have c2: "0 \<le> ghost_eat_count g2" using Cons.prems(2) by (simp add: g2_def)
    from Cons.IH[OF d(1) c2] obtain g' where g':
      "collision_loop ns g2 = Inr (g', \<exists>n\<in>set ns. lethal g2 n)"
      "ghost_eat_count g' = ghost_eat_count g2 + int (kills g2 ns)"
      "score g' = score g2 + (\<Sum>j<kills g2 ns. spec_award (nat (ghost_eat_count g2) + j))"
      "\<forall>m. get_ghost m g' =
           (if m \<in> set (checked g2 ns) \<and> edible g2 m then die (get_ghost m g2) else get_ghost m g2)"
      "state g' = (if \<exists>n\<in>set ns. lethal g2 n then DYING else state g2)"
      "state_timer g' = (if \<exists>n\<in>set ns. lethal g2 n then FPS * 2 else state_timer g2)"
      "round_rest g' = round_rest g2"
      by blast
    have leth: "(\<exists>m\<in>set ns. lethal g2 m) = (\<exists>m\<in>set (n # ns). lethal g m)"
      using same(3) nl by auto
    have cnt: "nat (ghost_eat_count g + 1) = Suc (nat (ghost_eat_count g))"
      using Cons.prems(2) by (simp add: nat_add_distrib)
    have f2: "score g2 = score g + spec_award (nat (ghost_eat_count g))"
      "ghost_eat_count g2 = ghost_eat_count g + 1" "state g2 = state g"
      "state_timer g2 = state_timer g" "round_rest g2 = round_rest g"
      "\<And>m. get_ghost m g2 = (if m = n then die (get_ghost n g) else get_ghost m g)"
      by (simp_all add: g2_def round_rest_def)
    have sc: "score g' = score g + (\<Sum>j<kills g (n # ns). spec_award (nat (ghost_eat_count g) + j))"
      using g'(3) unfolding same k f2 cnt
      by (simp add: sum.lessThan_Suc_shift del: sum.lessThan_Suc)
    have gh: "get_ghost m g' =
           (if m \<in> set (checked g (n # ns)) \<and> edible g m then die (get_ghost m g) else get_ghost m g)" for m
    proof (cases "m = n")
      case True
      have "n \<notin> set (checked g ns)"
        using d(2) set_takeWhileD[of n "\<lambda>n. \<not> lethal g n" ns] by (auto simp: checked_def)
      then show ?thesis using g'(4) True eat unfolding same k f2 by simp
    next
      case False
      have "m \<in> set (checked g ns) \<Longrightarrow> edible g2 m = edible g m"
        using same(4)[of m] set_takeWhileD[of m "\<lambda>n. \<not> lethal g n" ns]
        by (simp add: checked_def)
      then show ?thesis using g'(4) False unfolding same k f2 by auto
    qed
    have r: "collision_loop (n # ns) g = Inr (g', \<exists>m\<in>set (n # ns). lethal g m)"
      unfolding step using g'(1) leth by simp
    have rest: "ghost_eat_count g' = ghost_eat_count g + int (kills g (n # ns))"
      "state g' = (if \<exists>m\<in>set (n # ns). lethal g m then DYING else state g)"
      "state_timer g' = (if \<exists>m\<in>set (n # ns). lethal g m then FPS * 2 else state_timer g)"
      "round_rest g' = round_rest g"
      using g'(2,5,6,7) unfolding leth same k f2 by simp_all
    show ?thesis
      apply (rule exI[of _ g'])
      using r rest sc gh by (simp del: collision_loop.simps)
  next
    case death
    then have step: "collision_loop (n # ns) g = Inr (g\<lparr>state := DYING, state_timer := FPS * 2\<rparr>, True)"
      by (auto simp: lethal_def Let_def)
    have k: "kills g (n # ns) = 0" "checked g (n # ns) = []"
      using death by (simp_all add: kills_def checked_def)
    show ?thesis
      apply (rule exI[of _ "g\<lparr>state := DYING, state_timer := FPS * 2\<rparr>"])
      using death by (simp add: step k round_rest_def del: collision_loop.simps)
  qed
qed


lemma tile_of_numeral [simp]: "tile_of (numeral a) = numeral a div 20"
  by (simp add: tile_of_def TILE_SIZE_def)













section \<open>Evaluating a frame\<close>

lemma Pacman_update_idle:
  "pac_dir p = (0, 0) \<Longrightarrow> pac_next_dir p = (0, 0) \<Longrightarrow> Pacman_update mz p = Inr p"
  by (simp add: Pacman_update_def Pacman_try_turn_def Pacman_move_def split: prod.splits)

lemma update_pacman_idle:
  "pac_dir (pacman g) = (0, 0) \<Longrightarrow> pac_next_dir (pacman g) = (0, 0) \<Longrightarrow>
   update_pacman g = Inr (g\<lparr>power_pellet_blink := (power_pellet_blink g + 1) mod 20,
                             waka_timer := (waka_timer g + 1) mod 10\<rparr>)"
  by (simp add: update_pacman_def Let_def Pacman_update_idle)

lemma check_pellet_eating_none:
  "maze_at (maze g) (snd (Pacman_get_tile (pacman g))) (fst (Pacman_get_tile (pacman g))) = Inr c
   \<Longrightarrow> c \<noteq> CHR ''.'' \<Longrightarrow> c \<noteq> CHR ''o'' \<Longrightarrow> check_pellet_eating g = Inr g"
  by (auto simp: check_pellet_eating_def split: prod.splits)

lemma update_power_mode_off: "\<not> power_mode g \<Longrightarrow> update_power_mode g = g"
  by (simp add: update_power_mode_def)

lemma update_ghosts_eval:
  assumes "Ghost_update (pacman g) (blinky g) (rs Blinky) (blinky g) = Inr b"
    and "Ghost_update (pacman g) b (rs Pinky) (pinky g) = Inr p"
    and "Ghost_update (pacman g) b (rs Inky) (inky g) = Inr i"
    and "Ghost_update (pacman g) b (rs Clyde) (clyde g) = Inr c"
  shows "update_ghosts rs g = Inr (g\<lparr>blinky := b, pinky := p, inky := i, clyde := c\<rparr>)"
  using assms by (simp add: update_ghosts_def ghosts_def)





lemma pen_first:
  assumes "nm \<noteq> Blinky" "0 \<le> fst st" "fst st < 28"
  shows "Ghost_update pac bl r (Ghost_init nm st sc)
         = Inr ((Ghost_init nm st sc)
              \<lparr>gh_y := of_int (snd st * 20 + 10) + 6 / 5, gh_pen_timer := 1\<rparr>)"
  using assms
  by (simp add: Ghost_update_def Ghost_init_def Ghost_reset_def Ghost_get_tile_def
        move_in_direction_def Let_def consts_defs)

lemma leaving_first:
  assumes "nm \<noteq> Blinky" "0 \<le> fst st" "fst st < 28" "11 < snd st"
  shows "Ghost_update pac bl r (release (Ghost_init nm st sc))
         = Inr ((Ghost_init nm st sc)
              \<lparr>gh_y := of_int (snd st * 20 + 10) - 6 / 5, gh_dir := (0, -1), gh_mode := Leaving\<rparr>)"
proof -
  have "tile_of (rat_of_int (snd st * 20 + 10)) = snd st"
    by (simp add: tile_of_def TILE_SIZE_def floor_eq_iff)
  then show ?thesis using assms
  by (simp add: Ghost_update_def Ghost_init_def Ghost_reset_def Ghost_get_tile_def release_def
        move_in_direction_def Let_def consts_defs)
qed

lemma blinky_first:
  "Ghost_update pac bl r (Ghost_init Blinky (13, 11) (25, 0))
     = Inr ((Ghost_init Blinky (13, 11) (25, 0))\<lparr>gh_x := 1356 / 5, gh_dir := (1, 0)\<rparr>)"
  by (simp add: Ghost_update_def Ghost_init_def Ghost_reset_def Ghost_get_tile_def
        update_target_def seek_target_def centered_def cardinals_def reverse_of_def in_grid_def
        hypot2_def dist_less_def move_in_direction_def Let_def consts_defs split: prod.splits)

section \<open>What each step of a frame changes\<close>

lemma update_pacman_shape:
  "update_pacman g = Inr g' \<Longrightarrow>
   \<exists>p. g' = g\<lparr>power_pellet_blink := (power_pellet_blink g + 1) mod 20,
               waka_timer := (waka_timer g + 1) mod 10, pacman := p\<rparr>"
  by (auto simp: update_pacman_def Let_def ebind_eq_Inr)

lemma check_pellet_eating_shape:
  assumes "check_pellet_eating g = Inr g'"
  shows "g' = g
    \<or> (\<exists>m. g' = g\<lparr>maze := m, score := score g + DOT_SCORE, pellets_eaten := pellets_eaten g + 1\<rparr>)
    \<or> (\<exists>m. g' = frighten_ghosts (g\<lparr>maze := m, score := score g + POWER_DOT_SCORE,
                     pellets_eaten := pellets_eaten g + 1,
                     power_mode := True, power_timer := POWER_PELLET_TIME,
                     ghost_eat_count := 0\<rparr>))"
  using assms
  by (auto simp: check_pellet_eating_def ebind_eq_Inr split: prod.splits if_splits)

lemma get_ghost_round_update [simp]:
  "get_ghost n (g\<lparr>maze := m\<rparr>) = get_ghost n g"
  "get_ghost n (g\<lparr>score := s\<rparr>) = get_ghost n g"
  "get_ghost n (g\<lparr>pellets_eaten := p\<rparr>) = get_ghost n g"
  "get_ghost n (g\<lparr>power_mode := b\<rparr>) = get_ghost n g"
  "get_ghost n (g\<lparr>power_timer := t\<rparr>) = get_ghost n g"
  "get_ghost n (g\<lparr>ghost_eat_count := c\<rparr>) = get_ghost n g"
  "get_ghost n (g\<lparr>power_pellet_blink := k\<rparr>) = get_ghost n g"
  "get_ghost n (g\<lparr>waka_timer := k\<rparr>) = get_ghost n g"
  "get_ghost n (g\<lparr>pacman := pc\<rparr>) = get_ghost n g"
  "get_ghost n (g\<lparr>ghost_release_timer := k\<rparr>) = get_ghost n g"
  "get_ghost n (g\<lparr>ghosts_released := R\<rparr>) = get_ghost n g"
  "get_ghost n (g\<lparr>state := st\<rparr>) = get_ghost n g"
  "get_ghost n (g\<lparr>state_timer := k\<rparr>) = get_ghost n g"
  "get_ghost n (g\<lparr>level := k\<rparr>) = get_ghost n g"
  "get_ghost n (g\<lparr>lives := k\<rparr>) = get_ghost n g"
  by (cases n; simp)+


lemma unfrighten_ghosts_round [simp]:
  "ghost_eat_count (unfrighten_ghosts g) = ghost_eat_count g"
  "ghost_release_timer (unfrighten_ghosts g) = ghost_release_timer g"
  "ghosts_released (unfrighten_ghosts g) = ghosts_released g"
  "lives (unfrighten_ghosts g) = lives g"
  "high_score (unfrighten_ghosts g) = high_score g"
  "score (unfrighten_ghosts g) = score g"
  "state (unfrighten_ghosts g) = state g"
  "state_timer (unfrighten_ghosts g) = state_timer g"
  "pacman (unfrighten_ghosts g) = pacman g"
  by (simp_all add: unfrighten_ghosts_def ghosts_def)

lemma update_power_mode_round [simp]:
  "ghost_eat_count (update_power_mode g) = ghost_eat_count g"
  "ghost_release_timer (update_power_mode g) = ghost_release_timer g"
  "ghosts_released (update_power_mode g) = ghosts_released g"
  "lives (update_power_mode g) = lives g"
  "high_score (update_power_mode g) = high_score g"
  "score (update_power_mode g) = score g"
  "state (update_power_mode g) = state g"
  "state_timer (update_power_mode g) = state_timer g"
  "pacman (update_power_mode g) = pacman g"
  by (simp_all add: update_power_mode_def Let_def)


lemma release_one_round [simp]:
  "ghost_eat_count (release_one n t s g) = ghost_eat_count g"
  "ghost_release_timer (release_one n t s g) = ghost_release_timer g"
  "lives (release_one n t s g) = lives g"
  "high_score (release_one n t s g) = high_score g"
  "score (release_one n t s g) = score g"
  "state (release_one n t s g) = state g"
  "state_timer (release_one n t s g) = state_timer g"
  "pacman (release_one n t s g) = pacman g"
  by (simp_all add: release_one_def)

lemma release_ghosts_round [simp]:
  "ghost_eat_count (release_ghosts g) = ghost_eat_count g"
  "ghost_release_timer (release_ghosts g) = ghost_release_timer g + 1"
  "lives (release_ghosts g) = lives g"
  "high_score (release_ghosts g) = high_score g"
  "score (release_ghosts g) = score g"
  "state (release_ghosts g) = state g"
  "state_timer (release_ghosts g) = state_timer g"
  "pacman (release_ghosts g) = pacman g"
  by (simp_all add: release_ghosts_def Let_def)


lemma move_in_direction_same [simp]:
  "gh_mode (move_in_direction g) = gh_mode g"
  "gh_frightened (move_in_direction g) = gh_frightened g"
  "gh_dir (move_in_direction g) = gh_dir g"
  "gh_name (move_in_direction g) = gh_name g"
  by (simp_all add: move_in_direction_def Let_def)

lemma seek_target_same [simp]:
  "gh_mode (seek_target g) = gh_mode g"
  "gh_frightened (seek_target g) = gh_frightened g"
  by (simp_all add: seek_target_def Let_def split: prod.splits)

lemma move_randomly_same [simp]:
  "gh_mode (move_randomly r g) = gh_mode g"
  "gh_frightened (move_randomly r g) = gh_frightened g"
  by (simp_all add: move_randomly_def Let_def split: prod.splits)




lemma update_ghosts_loop_round:
  "update_ghosts_loop rs ns g = Inr g' \<Longrightarrow>
   ghost_eat_count g' = ghost_eat_count g \<and> ghost_release_timer g' = ghost_release_timer g \<and>
   ghosts_released g' = ghosts_released g \<and> lives g' = lives g \<and> high_score g' = high_score g \<and>
   score g' = score g \<and> state g' = state g \<and> state_timer g' = state_timer g \<and>
   pacman g' = pacman g"
proof (induction ns arbitrary: g)
  case Nil
  then show ?case by simp
next
  case (Cons m ns)
  from Cons.prems obtain gh where gh: "update_ghosts_loop rs ns (set_ghost m gh g) = Inr g'"
    by (auto simp: ebind_eq_Inr)
  from Cons.IH[OF gh] show ?case by simp
qed





lemma playing_start_fields:
  "state playing_start = PLAYING" "maze playing_start = reset_maze"
  "power_mode playing_start = False" "power_pellet_blink playing_start = 0"
  "waka_timer playing_start = 0" "ghost_eat_count playing_start = 0"
  "score playing_start = 0" "lives playing_start = 3" "level playing_start = 1"
  "high_score playing_start = 0"
  "blinky playing_start = Ghost_init Blinky (13, 11) (25, 0)"
  "pinky playing_start = Ghost_init Pinky (13, 14) (2, 0)"
  "inky playing_start = Ghost_init Inky (11, 14) (27, 29)"
  "clyde playing_start = Ghost_init Clyde (15, 14) (0, 29)"
  "pacman playing_start = Pacman_init (13, 23)"
  by (simp_all add: playing_start_def Game_init_def reset_level_def START_LIVES_def)

lemma first_step_pen:
  assumes "nm \<noteq> Blinky" "0 \<le> fst st" "fst st < 28" "11 < snd st"
    and "gh = Ghost_init nm st sc \<or> gh = release (Ghost_init nm st sc)"
  shows "Ghost_update pac bl r gh = Inr (first_step gh)"
proof -
  have m: "gh_mode (Ghost_init nm st sc) = Pen"
    "gh_y (Ghost_init nm st sc) = of_int (snd st * 20 + 10)"
    using assms(1) by (simp_all add: Ghost_init_def Ghost_reset_def consts_defs)
  from assms(5) show ?thesis
  proof
    assume "gh = Ghost_init nm st sc"
    then show ?thesis
      using pen_first[OF assms(1-3), of pac bl r sc] m by (simp add: first_step_def)
  next
    assume gh: "gh = release (Ghost_init nm st sc)"
    have "first_step gh = (Ghost_init nm st sc)
              \<lparr>gh_y := of_int (snd st * 20 + 10) - 6 / 5, gh_dir := (0, -1), gh_mode := Leaving\<rparr>"
      using m by (simp add: gh first_step_def release_def)
    then show ?thesis
      using leaving_first[OF assms(1-4), of pac bl r sc] gh by simp
  qed
qed

lemma release_one_ghosts:
  "blinky (release_one n thr s g) = (if n = Blinky \<and> n \<notin> ghosts_released g \<and>
         (pellets_eaten g \<ge> thr \<or> ghost_release_timer g > s * FPS) then release (blinky g) else blinky g)"
  "pinky (release_one n thr s g) = (if n = Pinky \<and> n \<notin> ghosts_released g \<and>
         (pellets_eaten g \<ge> thr \<or> ghost_release_timer g > s * FPS) then release (pinky g) else pinky g)"
  "inky (release_one n thr s g) = (if n = Inky \<and> n \<notin> ghosts_released g \<and>
         (pellets_eaten g \<ge> thr \<or> ghost_release_timer g > s * FPS) then release (inky g) else inky g)"
  "clyde (release_one n thr s g) = (if n = Clyde \<and> n \<notin> ghosts_released g \<and>
         (pellets_eaten g \<ge> thr \<or> ghost_release_timer g > s * FPS) then release (clyde g) else clyde g)"
  by (cases n; simp add: release_one_def)+

lemma release_ghosts_ghosts:
  "blinky (release_ghosts g) = blinky g"
  "pinky (release_ghosts g) = pinky g \<or> pinky (release_ghosts g) = release (pinky g)"
  "inky (release_ghosts g) = inky g \<or> inky (release_ghosts g) = release (inky g)"
  "clyde (release_ghosts g) = clyde g \<or> clyde (release_ghosts g) = release (clyde g)"
  by (simp_all add: release_ghosts_def Let_def release_one_ghosts)

lemma quiet_before:
  assumes idle: "pac_dir pac = (0, 0)" "pac_next_dir pac = (0, 0)"
    and tile: "maze_at reset_maze (snd (Pacman_get_tile pac)) (fst (Pacman_get_tile pac)) = Inr c"
      "c \<noteq> CHR ''.''" "c \<noteq> CHR ''o''"
  shows "before_collisions rs (quiet_start pac p t R) = Inr (after_quiet_start pac p t R)"
proof -
  define a where "a = (quiet_start pac p t R)\<lparr>power_pellet_blink := 1, waka_timer := 1\<rparr>"
  define d where "d = release_ghosts a"
  have s1: "update_pacman (quiet_start pac p t R) = Inr a"
    using update_pacman_idle[of "quiet_start pac p t R"] idle
    by (simp add: quiet_start_def a_def playing_start_fields)
  have af: "maze a = reset_maze" "pacman a = pac" "\<not> power_mode a"
    "blinky a = Ghost_init Blinky (13, 11) (25, 0)"
    "pinky a = Ghost_init Pinky (13, 14) (2, 0)"
    "inky a = Ghost_init Inky (11, 14) (27, 29)"
    "clyde a = Ghost_init Clyde (15, 14) (0, 29)"
    by (simp_all add: a_def quiet_start_def playing_start_fields)
  have s2: "check_pellet_eating a = Inr a"
    using check_pellet_eating_none[of a c] tile af by simp
  have s3: "update_power_mode a = a" using af by (simp add: update_power_mode_off)
  have b: "Ghost_update (pacman d) (blinky d) (rs Blinky) (blinky d)
             = Inr ((blinky d)\<lparr>gh_x := 1356 / 5, gh_dir := (1, 0)\<rparr>)"
    using release_ghosts_ghosts(1)[of a] af by (simp add: d_def blinky_first)
  have pk: "Ghost_update (pacman d) bl (rs Pinky) (pinky d) = Inr (first_step (pinky d))" for bl
    using release_ghosts_ghosts(2)[of a] af unfolding d_def[symmetric]
    by (intro first_step_pen[of Pinky "(13, 14)" _ "(2, 0)"]) auto
  have ik: "Ghost_update (pacman d) bl (rs Inky) (inky d) = Inr (first_step (inky d))" for bl
    using release_ghosts_ghosts(3)[of a] af unfolding d_def[symmetric]
    by (intro first_step_pen[of Inky "(11, 14)" _ "(27, 29)"]) auto
  have ck: "Ghost_update (pacman d) bl (rs Clyde) (clyde d) = Inr (first_step (clyde d))" for bl
    using release_ghosts_ghosts(4)[of a] af unfolding d_def[symmetric]
    by (intro first_step_pen[of Clyde "(15, 14)" _ "(0, 29)"]) auto
  have s4: "update_ghosts rs d = Inr (d\<lparr>blinky := (blinky d)\<lparr>gh_x := 1356 / 5, gh_dir := (1, 0)\<rparr>,
            pinky := first_step (pinky d), inky := first_step (inky d),
            clyde := first_step (clyde d)\<rparr>)"
    by (rule update_ghosts_eval[OF b pk ik ck])
  show ?thesis
    unfolding before_collisions_def s1 ebind_Inr s2 s3 d_def[symmetric] s4
    by (simp add: after_quiet_start_def Let_def d_def a_def)
qed

lemma Ghost_init_fields:
  "gh_y (Ghost_init nm st sc) = of_int (snd st * 20 + 10)"
  "gh_x (Ghost_init nm st sc) = of_int (fst st * 20 + 10)"
  "gh_mode (Ghost_init nm st sc) = (if nm = Blinky then Scatter else Pen)"
  "gh_frightened (Ghost_init nm st sc) = False"
  by (simp_all add: Ghost_init_def Ghost_reset_def consts_defs)

lemma release_fields [simp]:
  "gh_y (release gh) = gh_y gh" "gh_x (release gh) = gh_x gh"
  "gh_frightened (release gh) = gh_frightened gh"
  "gh_mode (release gh) = (if gh_mode gh = Pen then Leaving else gh_mode gh)"
  by (simp_all add: release_def)

lemma first_step_fields [simp]:
  "gh_mode (first_step gh) = gh_mode gh" "gh_frightened (first_step gh) = gh_frightened gh"
  "gh_x (first_step gh) = gh_x gh"
  "gh_y (first_step gh) = (if gh_mode gh = Leaving then gh_y gh - 6 / 5 else gh_y gh + 6 / 5)"
  by (simp_all add: first_step_def)

lemma after_quiet_round:
  "pacman (after_quiet_start pac p t R) = pac"
  "pellets_eaten (after_quiet_start pac p t R) = p"
  "ghost_release_timer (after_quiet_start pac p t R) = t + 1"
  "ghost_eat_count (after_quiet_start pac p t R) = 0"
  "score (after_quiet_start pac p t R) = 0"
  "lives (after_quiet_start pac p t R) = 3"
  "level (after_quiet_start pac p t R) = 1"
  "high_score (after_quiet_start pac p t R) = 0"
  "state (after_quiet_start pac p t R) = PLAYING"
  by (simp_all add: after_quiet_start_def Let_def quiet_start_def playing_start_fields)

lemma after_quiet_blinky:
  "blinky (after_quiet_start pac p t R)
     = (Ghost_init Blinky (13, 11) (25, 0))\<lparr>gh_x := 1356 / 5, gh_dir := (1, 0)\<rparr>"
  by (simp add: after_quiet_start_def Let_def quiet_start_def playing_start_fields
      release_ghosts_ghosts)





lemma Pacman_init_idle:
  "pac_dir (Pacman_init st) = (0, 0)" "pac_next_dir (Pacman_init st) = (0, 0)"
  "pac_y (Pacman_init st) = of_int (snd st * 20 + 10)"
  by (simp_all add: Pacman_init_def Pacman_reset_def consts_defs)



section \<open>Release from the pen\<close>

lemma quiet_start_role:
  assumes "(n, thr, secs) \<in> {(Pinky, 7, 4), (Inky, 17, 8), (Clyde, 32, 12)}"
  shows "gh_mode (get_ghost n (quiet_start pac p t R)) = Pen"
    "\<not> gh_frightened (get_ghost n (quiet_start pac p t R))"
    "ghosts_released (quiet_start pac p t R) = R"
    "pellets_eaten (quiet_start pac p t R) = p"
    "ghost_release_timer (quiet_start pac p t R) = t"
    "state (quiet_start pac p t R) = PLAYING"
  using assms by (auto simp: quiet_start_def playing_start_fields Ghost_init_fields)


text \<open>The way back into the pen: an eaten adversary that has reached row 14 in entering
  mode is reset, and \<^verbatim>\<open>reset\<close> overwrites the mode \<^verbatim>\<open>"leaving"\<close> just assigned with
  \<^verbatim>\<open>"pen"\<close>; its name is still in the released set.\<close>

lemma entering_ends_in_pen:
  assumes "gh_mode gh = Entering" "14 \<le> snd (Ghost_get_tile gh)" "gh_name gh \<noteq> Blinky"
    "\<not> gh_frightened gh"
  shows "\<exists>gh'. Ghost_update pac bl r gh = Inr gh' \<and> gh_mode gh' = Pen"
  using assms by (auto simp: Ghost_update_def Ghost_reset_def Let_def split: prod.splits)






section \<open>Death of the player\<close>

lemma check_pellet_eating_round:
  assumes "check_pellet_eating g = Inr g'"
  shows "lives g' = lives g" "high_score g' = high_score g" "state g' = state g"
    "state_timer g' = state_timer g" "ghost_release_timer g' = ghost_release_timer g"
    "ghost_eat_count g' = ghost_eat_count g \<or> ghost_eat_count g' = 0"
  using check_pellet_eating_shape[OF assms] by auto

lemma before_collisions_round:
  assumes "before_collisions rs g = Inr g1"
  shows "lives g1 = lives g" "high_score g1 = high_score g" "level g1 = level g"
    "state g1 = state g" "state_timer g1 = state_timer g"
    "ghost_release_timer g1 = ghost_release_timer g + 1"
    "ghost_eat_count g1 = ghost_eat_count g \<or> ghost_eat_count g1 = 0"
proof -
  from assms obtain ga gb where a1: "update_pacman g = Inr ga" and a2: "check_pellet_eating ga = Inr gb"
    and a3: "update_ghosts_loop rs ghosts (release_ghosts (update_power_mode gb)) = Inr g1"
    by (auto simp: before_collisions_def update_ghosts_def ebind_eq_Inr)
  from update_pacman_shape[OF a1] have ga: "lives ga = lives g" "high_score ga = high_score g"
    "level ga = level g" "state ga = state g" "state_timer ga = state_timer g"
    "ghost_release_timer ga = ghost_release_timer g" "ghost_eat_count ga = ghost_eat_count g"
    by auto
  note gb = check_pellet_eating_round[OF a2] check_pellet_eating_inv[OF a2]
  note g1 = update_ghosts_loop_round[OF a3] update_ghosts_loop_fields[OF a3]
  show "lives g1 = lives g" "high_score g1 = high_score g" "level g1 = level g"
    "state g1 = state g" "state_timer g1 = state_timer g"
    "ghost_release_timer g1 = ghost_release_timer g + 1"
    using ga gb g1 by simp_all
  show "ghost_eat_count g1 = ghost_eat_count g \<or> ghost_eat_count g1 = 0"
    using ga gb(6) g1 by auto
qed

lemma standing_fields:
  "pac_dir (standing x y) = (0, 0)" "pac_next_dir (standing x y) = (0, 0)"
  "pac_x (standing x y) = x" "pac_y (standing x y) = y"
  by (simp_all add: standing_def Pacman_init_idle)

lemma corridor_tile_empty:
  "maze_at reset_maze (snd (Pacman_get_tile (standing 285 230)))
     (fst (Pacman_get_tile (standing 285 230))) = Inr CHR '' ''"
  by (simp add: Pacman_get_tile_def standing_fields
      reset_maze_def original_maze_def maze_layout_def maze_at_def py_index_def)

lemma blinky_hits:
  "lethal (after_quiet_start (standing 285 230) p t R) Blinky"
  by (simp add: lethal_def after_quiet_blinky after_quiet_round standing_fields
      Ghost_init_fields pac_rect_def ghost_rect_def Rect_def trunc_def colliderect_def)

lemma near_blinky_before:
  "before_collisions rs (quiet_start (standing 285 230) p t R)
     = Inr (after_quiet_start (standing 285 230) p t R)"
  by (rule quiet_before[OF standing_fields(1,2) corridor_tile_empty]) simp_all


text \<open>
  Claim C10 (when a non-dead, non-frightened adversary's bounding box overlaps the player's
  in a playing frame, the phase becomes dying within that frame and the rest of the frame's
  processing, further collision checks and the level-completion check, is abandoned).
  \<open>g1\<close> is the game when the collision loop starts. The frame returns with the phase
  dying and the dying timer set; the level, the pellet counter and the overlay are as the
  loop found them, even when the counter has reached the total; every adversary the loop had
  not reached (the lethal one and those after it in the list) is unchanged.
\<close>

theorem C10_death_abandons_frame:
  assumes playing: "state g = PLAYING"
    and bc: "before_collisions rs g = Inr g1"
    and streak: "0 \<le> ghost_eat_count g"
    and hit: "\<exists>n\<in>set ghosts. lethal g1 n"
  shows "\<exists>g'. update rs g = Inr g' \<and> state g' = DYING \<and> state_timer g' = FPS * 2
      \<and> round_rest g' = round_rest g1
      \<and> level g' = level g \<and> pellets_eaten g' = pellets_eaten g1 \<and> maze g' = maze g1
      \<and> (\<forall>n. n \<notin> set (checked g1 ghosts) \<longrightarrow> get_ghost n g' = get_ghost n g1)"
proof -
  have c1: "0 \<le> ghost_eat_count g1" using before_collisions_round(7)[OF bc] streak by auto
  have d: "distinct ghosts" by (simp add: ghosts_def)
  from collision_loop_result[OF d c1] hit obtain g2 where
    cc: "check_collisions g1 = Inr (g2, True)"
    and g2: "state g2 = DYING" "state_timer g2 = FPS * 2" "round_rest g2 = round_rest g1"
      "\<forall>n. get_ghost n g2 =
           (if n \<in> set (checked g1 ghosts) \<and> edible g1 n then die (get_ghost n g1)
            else get_ghost n g1)"
    unfolding check_collisions_def by auto
  have u: "update rs g = Inr g2" using playing bc cc by (simp add: update_def update_game_def)
  have "level g2 = level g" "pellets_eaten g2 = pellets_eaten g1" "maze g2 = maze g1"
    using g2(3) before_collisions_round(3)[OF bc] by (simp_all add: round_rest_def)
  with u g2 show ?thesis by auto
qed


theorem C10_death_abandons_frame_witness:
  "\<forall>rs. \<exists>g'. update rs (quiet_start (standing 285 230) 0 0 {}) = Inr g'
      \<and> state g' = DYING \<and> state_timer g' = FPS * 2
      \<and> level g' = 1 \<and> pellets_eaten g' = 0
      \<and> (\<forall>n. get_ghost n g' = get_ghost n (after_quiet_start (standing 285 230) 0 0 {}))"
proof
  fix rs
  let ?g = "quiet_start (standing 285 230) 0 0 {}"
  let ?a = "after_quiet_start (standing 285 230) 0 0 {}"
  have r: "(Pinky, 7, 4) \<in> {(Pinky, 7::int, 4::int), (Inky, 17, 8), (Clyde, 32, 12)}" by simp
  have p: "state ?g = PLAYING" by (rule quiet_start_role(6)[OF r])
  have s: "0 \<le> ghost_eat_count ?g" by (simp add: quiet_start_def playing_start_fields)
  have h: "\<exists>n\<in>set ghosts. lethal ?a n" using blinky_hits by (auto simp: ghosts_def)
  have e: "checked ?a ghosts = []" using blinky_hits by (simp add: checked_def ghosts_def)
  from C10_death_abandons_frame[OF p near_blinky_before s h, of rs]
  show "\<exists>g'. update rs ?g = Inr g'
      \<and> state g' = DYING \<and> state_timer g' = FPS * 2
      \<and> level g' = 1 \<and> pellets_eaten g' = 0
      \<and> (\<forall>n. get_ghost n g' = get_ghost n ?a)"
    unfolding e by (auto simp: after_quiet_round quiet_start_def playing_start_fields)
qed


section \<open>Level completion\<close>











section \<open>Tunnel wraparound\<close>

lemma tile_of_outside:
  "x < 0 \<Longrightarrow> tile_of x < 0" "560 \<le> x \<Longrightarrow> 28 \<le> tile_of x"
  by (simp_all add: tile_of_def TILE_SIZE_def floor_less_iff le_floor_iff)

lemma move_in_direction_wrap:
  "gh_y (move_in_direction g) = gh_y g + of_int (snd (gh_dir g)) * gh_speed g"
  "gh_x (move_in_direction g) =
     (if tile_of (gh_y g + of_int (snd (gh_dir g)) * gh_speed g) = 14
      then spec_tunnel_wrap (gh_x g + of_int (fst (gh_dir g)) * gh_speed g)
      else gh_x g + of_int (fst (gh_dir g)) * gh_speed g)"
  by (simp_all add: move_in_direction_def Let_def spec_tunnel_wrap_def)

lemma Pacman_move_wrap:
  assumes "pac_dir p \<noteq> (0, 0)"
    and "tile_of (pac_y p + of_int (snd (pac_dir p)) * pac_speed p) = 14"
    and "pac_x p + of_int (fst (pac_dir p)) * pac_speed p < 0
         \<or> 560 \<le> pac_x p + of_int (fst (pac_dir p)) * pac_speed p"
  shows "Pacman_move mz p
     = Inr (p\<lparr>pac_x := spec_tunnel_wrap (pac_x p + of_int (fst (pac_dir p)) * pac_speed p)\<rparr>)"
proof -
  let ?nx = "pac_x p + of_int (fst (pac_dir p)) * pac_speed p"
  have "\<not> in_grid (tile_of ?nx) 14"
    using assms(3) tile_of_outside[of ?nx] by (auto simp: in_grid_def MAZE_COLS_def)
  then show ?thesis
    using assms by (auto simp: Pacman_move_def Let_def spec_tunnel_wrap_def consts_defs)
qed

lemma Pacman_move_inside:
  assumes "Pacman_move mz p = Inr p'"
    and "0 \<le> pac_x p + of_int (fst (pac_dir p)) * pac_speed p"
    and "pac_x p + of_int (fst (pac_dir p)) * pac_speed p < 560"
  shows "pac_x p' = pac_x p + of_int (fst (pac_dir p)) * pac_speed p \<or> pac_x p' = pac_x p"
  using assms
  by (auto simp: Pacman_move_def Let_def ebind_eq_Inr consts_defs split: if_splits)

lemma spec_tunnel_wrap_facts:
  "x < 0 \<Longrightarrow> spec_tunnel_wrap x = 550"
  "560 \<le> x \<Longrightarrow> spec_tunnel_wrap x = 10"
  "0 \<le> x \<Longrightarrow> x < 560 \<Longrightarrow> spec_tunnel_wrap x = x"
  "spec_tunnel_wrap (spec_tunnel_wrap x) = spec_tunnel_wrap x"
  "0 < e \<Longrightarrow> spec_tunnel_wrap (- e) = 560 - spec_tunnel_wrap (560 + e)"
  "tile_of 550 = 27 \<and> 550 - 20 * 27 = (10::rat)" "tile_of 10 = 0 \<and> 10 - 20 * 0 = (10::rat)"
  by (auto simp: spec_tunnel_wrap_def consts_defs)


lemma Pacman_update_move:
  "Pacman_try_turn mz q = Inr p \<Longrightarrow> Pacman_update mz q = Pacman_move mz p"
  by (simp add: Pacman_update_def)

text \<open>
  Claim C5 (on the tunnel row an agent crossing the right bound wraps to the left edge and
  vice versa, symmetrically and at equivalent sub-tile offset, independently of the wall and
  turn checks; the wrap of an in-bounds position is the identity, so it is idempotent).
  On row 14 an adversary's new horizontal position is the wrap of its stepped position; the
  player (\<open>p\<close> after the turn evaluation) whose stepped position lies outside the bounds
  is put at the wrap of it whatever the maze holds, and otherwise keeps what the wall check
  decided. The wrap sends positions right of the bound to the centre of the leftmost tile,
  positions left of it to the centre of the rightmost tile (the mirror image, the same
  sub-tile offset of half a tile), and fixes every in-bounds position.
\<close>

theorem C5_tunnel_wrap:
  "(tile_of (gh_y g + of_int (snd (gh_dir g)) * gh_speed g) = 14 \<longrightarrow>
      gh_x (move_in_direction g)
        = spec_tunnel_wrap (gh_x g + of_int (fst (gh_dir g)) * gh_speed g)
      \<and> gh_y (move_in_direction g) = gh_y g + of_int (snd (gh_dir g)) * gh_speed g)
   \<and> (Pacman_try_turn mz q = Inr p \<and> pac_dir p \<noteq> (0, 0)
       \<and> tile_of (pac_y p + of_int (snd (pac_dir p)) * pac_speed p) = 14
       \<and> (pac_x p + of_int (fst (pac_dir p)) * pac_speed p < 0
           \<or> of_int SCREEN_WIDTH \<le> pac_x p + of_int (fst (pac_dir p)) * pac_speed p) \<longrightarrow>
      Pacman_update mz q
        = Inr (p\<lparr>pac_x := spec_tunnel_wrap (pac_x p + of_int (fst (pac_dir p)) * pac_speed p)\<rparr>))
   \<and> (Pacman_try_turn mz q = Inr p \<and> Pacman_update mz q = Inr p'
       \<and> 0 \<le> pac_x p + of_int (fst (pac_dir p)) * pac_speed p
       \<and> pac_x p + of_int (fst (pac_dir p)) * pac_speed p < of_int SCREEN_WIDTH \<longrightarrow>
      pac_x p' = pac_x p + of_int (fst (pac_dir p)) * pac_speed p \<or> pac_x p' = pac_x p)
   \<and> (of_int SCREEN_WIDTH \<le> x \<longrightarrow> spec_tunnel_wrap x = of_int (TILE_SIZE div 2))
   \<and> (x < 0 \<longrightarrow> spec_tunnel_wrap x = of_int (SCREEN_WIDTH - TILE_SIZE div 2))
   \<and> (0 \<le> x \<and> x < of_int SCREEN_WIDTH \<longrightarrow> spec_tunnel_wrap x = x)
   \<and> spec_tunnel_wrap (spec_tunnel_wrap x) = spec_tunnel_wrap x
   \<and> (0 < e \<longrightarrow>
        spec_tunnel_wrap (- e) = of_int SCREEN_WIDTH - spec_tunnel_wrap (of_int SCREEN_WIDTH + e))
   \<and> tile_of (of_int (SCREEN_WIDTH - TILE_SIZE div 2)) = MAZE_COLS - 1
   \<and> tile_of (of_int (TILE_SIZE div 2)) = 0"
proof -
  have a: "tile_of (gh_y g + of_int (snd (gh_dir g)) * gh_speed g) = 14 \<longrightarrow>
      gh_x (move_in_direction g)
        = spec_tunnel_wrap (gh_x g + of_int (fst (gh_dir g)) * gh_speed g)
      \<and> gh_y (move_in_direction g) = gh_y g + of_int (snd (gh_dir g)) * gh_speed g"
    by (simp add: move_in_direction_wrap)
  have b: "Pacman_try_turn mz q = Inr p \<and> pac_dir p \<noteq> (0, 0)
       \<and> tile_of (pac_y p + of_int (snd (pac_dir p)) * pac_speed p) = 14
       \<and> (pac_x p + of_int (fst (pac_dir p)) * pac_speed p < 0
           \<or> of_int SCREEN_WIDTH \<le> pac_x p + of_int (fst (pac_dir p)) * pac_speed p) \<longrightarrow>
      Pacman_update mz q
        = Inr (p\<lparr>pac_x := spec_tunnel_wrap (pac_x p + of_int (fst (pac_dir p)) * pac_speed p)\<rparr>)"
    using Pacman_move_wrap[of p mz] by (auto simp: Pacman_update_move consts_defs)
  have c: "Pacman_try_turn mz q = Inr p \<and> Pacman_update mz q = Inr p'
       \<and> 0 \<le> pac_x p + of_int (fst (pac_dir p)) * pac_speed p
       \<and> pac_x p + of_int (fst (pac_dir p)) * pac_speed p < of_int SCREEN_WIDTH \<longrightarrow>
      pac_x p' = pac_x p + of_int (fst (pac_dir p)) * pac_speed p \<or> pac_x p' = pac_x p"
    using Pacman_move_inside[of mz p p'] by (auto simp: Pacman_update_move consts_defs)
  have d: "(of_int SCREEN_WIDTH \<le> x \<longrightarrow> spec_tunnel_wrap x = of_int (TILE_SIZE div 2))
   \<and> (x < 0 \<longrightarrow> spec_tunnel_wrap x = of_int (SCREEN_WIDTH - TILE_SIZE div 2))
   \<and> (0 \<le> x \<and> x < of_int SCREEN_WIDTH \<longrightarrow> spec_tunnel_wrap x = x)
   \<and> spec_tunnel_wrap (spec_tunnel_wrap x) = spec_tunnel_wrap x
   \<and> (0 < e \<longrightarrow>
        spec_tunnel_wrap (- e) = of_int SCREEN_WIDTH - spec_tunnel_wrap (of_int SCREEN_WIDTH + e))"
    by (auto simp: spec_tunnel_wrap_def consts_defs)
  have e: "tile_of (of_int (SCREEN_WIDTH - TILE_SIZE div 2)) = MAZE_COLS - 1
   \<and> tile_of (of_int (TILE_SIZE div 2)) = 0"
    by (simp add: consts_defs)
  from a b c d e show ?thesis by blast
qed

lemma tunnel_samples:
  "tile_of (gh_y tunnel_ghost + of_int (snd (gh_dir tunnel_ghost)) * gh_speed tunnel_ghost) = 14"
  "gh_x tunnel_ghost + of_int (fst (gh_dir tunnel_ghost)) * gh_speed tunnel_ghost = 2801 / 5"
  "Pacman_try_turn mz tunnel_pacman = Inr tunnel_pacman"
  "pac_dir tunnel_pacman \<noteq> (0, 0)"
  "tile_of (pac_y tunnel_pacman + of_int (snd (pac_dir tunnel_pacman)) * pac_speed tunnel_pacman) = 14"
  "pac_x tunnel_pacman + of_int (fst (pac_dir tunnel_pacman)) * pac_speed tunnel_pacman = - (1 / 2)"
  by (simp_all add: tunnel_ghost_def tunnel_pacman_def Ghost_init_def Ghost_reset_def
      Pacman_init_def Pacman_reset_def Pacman_try_turn_def consts_defs split: prod.splits)

theorem C5_tunnel_wrap_witness:
  "gh_x (move_in_direction tunnel_ghost) = 10
   \<and> gh_y (move_in_direction tunnel_ghost) = 290
   \<and> (\<forall>mz. Pacman_update mz tunnel_pacman = Inr (tunnel_pacman\<lparr>pac_x := 550\<rparr>))"
proof -
  have w: "spec_tunnel_wrap (2801 / 5) = 10" "spec_tunnel_wrap (- (1 / 2)) = 550"
    by (simp_all add: spec_tunnel_wrap_def consts_defs)
  have y: "gh_y tunnel_ghost + of_int (snd (gh_dir tunnel_ghost)) * gh_speed tunnel_ghost = 290"
    by (simp add: tunnel_ghost_def Ghost_init_def Ghost_reset_def consts_defs)
  have g: "gh_x (move_in_direction tunnel_ghost) = 10 \<and> gh_y (move_in_direction tunnel_ghost) = 290"
    using C5_tunnel_wrap[where g = tunnel_ghost]
      tunnel_samples(1,2) w(1) y by simp
  have p: "Pacman_update mz tunnel_pacman = Inr (tunnel_pacman\<lparr>pac_x := 550\<rparr>)" for mz
    using C5_tunnel_wrap[where mz = mz and q = tunnel_pacman and p = tunnel_pacman]
      tunnel_samples(3)[of mz] tunnel_samples(4-6) w(2) by simp
  from g p show ?thesis by blast
qed


section \<open>The intersection choice of \<^verbatim>\<open>seek_target\<close>\<close>

lemma seek_loop_spec:
  assumes "seek_loop g t ds (b, best) = (b', best')"
  defines "ok \<equiv> \<lambda>c. c \<noteq> reverse_of (gh_dir g) \<and> in_grid (fst t + fst c) (snd t + snd c)"
    and "dsq \<equiv> \<lambda>c. hypot2 (fst (gh_target g) - (fst t + fst c)) (snd (gh_target g) - (snd t + snd c))"
  shows "(b' = b \<and> best' = best \<and> (\<forall>c\<in>set (filter ok ds). \<forall>v. best = Some v \<longrightarrow> v \<le> dsq c)
            \<and> (best = None \<longrightarrow> filter ok ds = []))
       \<or> (\<exists>pre post. filter ok ds = pre @ b' # post \<and> best' = Some (dsq b')
            \<and> (\<forall>c\<in>set pre. dsq b' < dsq c) \<and> (\<forall>c\<in>set post. dsq b' \<le> dsq c)
            \<and> (\<forall>v. best = Some v \<longrightarrow> dsq b' < v))"
  using assms(1)
proof (induction ds arbitrary: b best)
  case Nil
  then show ?case by simp
next
  case (Cons c ds)
  show ?case
  proof (cases "ok c")
    case False
    then have "seek_loop g t ds (b, best) = (b', best')"
      using Cons.prems by (auto simp: ok_def Let_def split: if_splits)
    from Cons.IH[OF this] False show ?thesis by simp
  next
    case True
    show ?thesis
    proof (cases "dist_less (dsq c) best")
      case less: True
      then have r: "seek_loop g t ds (c, Some (dsq c)) = (b', best')"
        using Cons.prems True by (simp add: ok_def dsq_def Let_def)
      from less have lv: "\<forall>v. best = Some v \<longrightarrow> dsq c < v" by (auto simp: dist_less_def split: option.splits)
      from Cons.IH[OF r] show ?thesis
      proof
        assume a: "b' = c \<and> best' = Some (dsq c)
            \<and> (\<forall>x\<in>set (filter ok ds). \<forall>v. Some (dsq c) = Some v \<longrightarrow> v \<le> dsq x)
            \<and> (Some (dsq c) = None \<longrightarrow> filter ok ds = [])"
        then have "filter ok (c # ds) = [] @ b' # filter ok ds" "best' = Some (dsq b')"
          "\<forall>x\<in>set (filter ok ds). dsq b' \<le> dsq x" "\<forall>v. best = Some v \<longrightarrow> dsq b' < v"
          using True lv by simp_all
        then show ?thesis by (intro disjI2 exI[of _ "[]"] exI[of _ "filter ok ds"]) simp
      next
        assume "\<exists>pre post. filter ok ds = pre @ b' # post \<and> best' = Some (dsq b')
            \<and> (\<forall>x\<in>set pre. dsq b' < dsq x) \<and> (\<forall>x\<in>set post. dsq b' \<le> dsq x)
            \<and> (\<forall>v. Some (dsq c) = Some v \<longrightarrow> dsq b' < v)"
        then obtain pre post where p: "filter ok ds = pre @ b' # post" "best' = Some (dsq b')"
          "\<forall>x\<in>set pre. dsq b' < dsq x" "\<forall>x\<in>set post. dsq b' \<le> dsq x" "dsq b' < dsq c"
          by auto
        have "filter ok (c # ds) = (c # pre) @ b' # post" using True p(1) by simp
        moreover have "\<forall>x\<in>set (c # pre). dsq b' < dsq x" using p(3,5) by simp
        moreover have "\<forall>v. best = Some v \<longrightarrow> dsq b' < v" using lv p(5) by auto
        ultimately show ?thesis using p(2,4) by (intro disjI2 exI[of _ "c # pre"] exI[of _ post]) simp
      qed
    next
      case nless: False
      then have r: "seek_loop g t ds (b, best) = (b', best')"
        using Cons.prems True by (simp add: ok_def dsq_def Let_def)
      from nless obtain v0 where v0: "best = Some v0" "v0 \<le> dsq c"
        by (cases best) (auto simp: dist_less_def)
      from Cons.IH[OF r] show ?thesis
      proof
        assume "b' = b \<and> best' = best
            \<and> (\<forall>x\<in>set (filter ok ds). \<forall>v. best = Some v \<longrightarrow> v \<le> dsq x)
            \<and> (best = None \<longrightarrow> filter ok ds = [])"
        then show ?thesis using v0 True by auto
      next
        assume "\<exists>pre post. filter ok ds = pre @ b' # post \<and> best' = Some (dsq b')
            \<and> (\<forall>x\<in>set pre. dsq b' < dsq x) \<and> (\<forall>x\<in>set post. dsq b' \<le> dsq x)
            \<and> (\<forall>v. best = Some v \<longrightarrow> dsq b' < v)"
        then obtain pre post where p: "filter ok ds = pre @ b' # post" "best' = Some (dsq b')"
          "\<forall>x\<in>set pre. dsq b' < dsq x" "\<forall>x\<in>set post. dsq b' \<le> dsq x"
          "\<forall>v. best = Some v \<longrightarrow> dsq b' < v"
          by auto
        have "filter ok (c # ds) = (c # pre) @ b' # post" using True p(1) by simp
        moreover have "\<forall>x\<in>set (c # pre). dsq b' < dsq x" using p(3,5) v0 by auto
        ultimately show ?thesis using p(2,4,5) by (intro disjI2 exI[of _ "c # pre"] exI[of _ post]) simp
      qed
    qed
  qed
qed

end
